theory Spec2Isabelle
  imports Main "HOL-Library.Log_Nat" "HOL-Library.Sublist" "HOL-Library.Multiset"
begin

section \<open>Tokyo bike status tracker: the station pipeline of app.py and tokyo_helpers.py\<close>

text \<open>
  The development follows the two source files. Data frames are lists of rows in frame
  order; a cell that pandas holds as NaN or None is \<open>None\<close>. Every exception the code can
  raise inside the modelled statements is a value of \<open>py_error\<close>, carried in \<open>Inl\<close>.
\<close>

subsection \<open>Exceptions\<close>

datatype py_error =
    URLError
  | HTTPError nat
  | JSONDecodeError
  | KeyError string
  | TypeError
  | ValueError
  | AttributeError
  | ZeroDivisionError
  | OverflowError
  | OSError

subsection \<open>Status colours\<close>

text \<open>
  app.py, \<open>get_status_color\<close>:
  \<^verbatim>\<open>
    if bikes_available > 3: return "green"
    elif bikes_available > 0: return "orange"
    else: return "red"
  \<close>
\<close>

definition get_status_color :: "int \<Rightarrow> string" where
  "get_status_color bikes_available =
     (if bikes_available > 3 then ''green''
      else if bikes_available > 0 then ''orange''
      else ''red'')"

text \<open>
  tokyo_helpers.py, \<open>get_marker_color\<close>:
  \<^verbatim>\<open>
    if num_bikes_available > 3: return 'green'
    elif 0 < num_bikes_available <= 3: return 'yellow'
    else: return 'red'
  \<close>
\<close>

definition get_marker_color :: "int \<Rightarrow> string" where
  "get_marker_color num_bikes_available =
     (if num_bikes_available > 3 then ''green''
      else if 0 < num_bikes_available \<and> num_bikes_available \<le> 3 then ''yellow''
      else ''red'')"

text \<open>
  The three classes of the specification, read off the colour a function returned:
  green is ok, orange (app.py) or yellow (tokyo_helpers.py) is low, red is empty.
\<close>

datatype status_class = Ok | Low | Empty

definition class_of_colour :: "string \<Rightarrow> status_class option" where
  "class_of_colour c =
     (if c = ''green'' then Some Ok
      else if c = ''orange'' \<or> c = ''yellow'' then Some Low
      else if c = ''red'' then Some Empty
      else None)"

subsection \<open>Python floats\<close>

text \<open>
  A finite float is represented by the rational number it denotes. \<open>to_double\<close> rounds a
  rational to the nearest binary64 number, ties to the even significand: 53 significant
  bits, and below \<open>2^-1022\<close> the fixed spacing \<open>2^-1074\<close> of the subnormal numbers. The upper
  end of the range is checked where the operation is applied, since the operations differ
  in what they do there.
\<close>

definition pow2 :: "int \<Rightarrow> rat" where
  "pow2 e = (if 0 \<le> e then 2 ^ nat e else 1 / 2 ^ nat (- e))"

definition round_half_even :: "rat \<Rightarrow> int" where
  "round_half_even x =
     (let f = \<lfloor>x\<rfloor>; d = x - of_int f
      in if d < 1 / 2 then f else if 1 / 2 < d then f + 1 else if even f then f else f + 1)"

text \<open>For \<open>x > 0\<close>, the exponent \<open>e\<close> with \<open>2^e \<le> x < 2^(e+1)\<close>.\<close>

definition binade :: "rat \<Rightarrow> int" where
  "binade x =
     (case quotient_of x of (p, q) \<Rightarrow>
        (let d = bitlen p - bitlen q in if pow2 d \<le> x then d else d - 1))"

definition to_double :: "rat \<Rightarrow> rat" where
  "to_double x =
     (if x = 0 then 0
      else (let u = pow2 (max (binade \<bar>x\<bar> - 52) (- 1074))
            in of_int (round_half_even (x / u)) * u))"

definition overflows :: "rat \<Rightarrow> bool" where
  "overflows x = (2 ^ 1024 \<le> \<bar>x\<bar>)"

datatype pyfloat = Finite rat | PosInf | NegInf

text \<open>
  \<open>a / b\<close> on two ints: the correctly rounded quotient; \<open>ZeroDivisionError\<close> for \<open>b = 0\<close> and
  \<open>OverflowError\<close> when the quotient is too large for a float.
\<close>

definition py_truediv :: "int \<Rightarrow> int \<Rightarrow> py_error + rat" where
  "py_truediv a b =
     (if b = 0 then Inl ZeroDivisionError
      else (let q = to_double (of_int a / of_int b)
            in if overflows q then Inl OverflowError else Inr q))"

text \<open>\<open>x * y\<close> on two floats: the correctly rounded product, an infinity when it is too large.\<close>

definition float_mul :: "rat \<Rightarrow> rat \<Rightarrow> pyfloat" where
  "float_mul x y =
     (let p = to_double (x * y)
      in if overflows p then (if 0 < p then PosInf else NegInf) else Finite p)"

text \<open>
  \<open>round(x, ndigits)\<close> on a float, for \<open>0 \<le> ndigits\<close>: the exact value of \<open>x\<close> is rounded to
  \<open>ndigits\<close> decimals, ties to even, and the decimal is converted to the nearest float;
  an infinity rounds to itself.
\<close>

definition py_round :: "pyfloat \<Rightarrow> nat \<Rightarrow> py_error + pyfloat" where
  "py_round x ndigits =
     (case x of
        Finite v \<Rightarrow>
          (let r = to_double (of_int (round_half_even (v * 10 ^ ndigits)) / 10 ^ ndigits)
           in if overflows r then Inl OverflowError else Inr (Finite r))
      | PosInf \<Rightarrow> Inr PosInf
      | NegInf \<Rightarrow> Inr NegInf)"

subsection \<open>Utilization\<close>

text \<open>
  app.py, \<open>calculate_utilization\<close>:
  \<^verbatim>\<open>
    if capacity == 0:
        return 0
    return round((bikes_available / capacity) * 100, 2)
  \<close>
  The int \<open>0\<close> of the first branch and the float \<open>0.0\<close> are the same number.
\<close>

definition calculate_utilization :: "int \<Rightarrow> int \<Rightarrow> py_error + pyfloat" where
  "calculate_utilization bikes cap =
     (if cap = 0 then Inr (Finite 0)
      else (case py_truediv bikes cap of
              Inl e \<Rightarrow> Inl e
            | Inr q \<Rightarrow> py_round (float_mul q 100) 2))"

subsection \<open>Rows of the two feeds\<close>

text \<open>
  A station object of the information feed (\<open>station_information.json\<close>). Coordinates are
  only copied by the code, never computed with; a number is carried as the rational it
  denotes. A member that is absent or null in the object is \<open>None\<close>.
\<close>

record keyed =
  station_id :: string

record info_row = keyed +
  name :: "string option"
  lat :: "rat option"
  lon :: "rat option"
  capacity :: "int option"
  region_id :: "string option"

text \<open>The columns \<open>['station_id', 'lat', 'lon', 'name', 'capacity']\<close> that \<open>join_latlon\<close> selects.\<close>

record latlon_row = keyed +
  lat :: "rat option"
  lon :: "rat option"
  name :: "string option"
  capacity :: "int option"

text \<open>A station object of the status feed (\<open>station_status.json\<close>).\<close>

record status_row = keyed +
  is_renting :: "bool option"
  is_returning :: "bool option"
  is_installed :: "bool option"
  num_bikes_available :: "int option"
  num_docks_available :: "int option"
  last_reported :: "int option"

text \<open>
  A row of the frame \<open>query_station_status\<close> returns: the status columns plus \<open>time\<close>.
  A datetime is represented by its POSIX seconds, so the conversion of line 24 leaves the
  number as it is.
\<close>

record timed_row = status_row +
  time :: int

text \<open>
  A row of \<open>stations_base\<close> (app.py, lines 71 to 73): the columns of the status frame and
  the columns of the information frame. Where the left join found no information row, the
  information columns are null.
\<close>

record station = timed_row +
  name :: "string option"
  lat :: "rat option"
  lon :: "rat option"
  capacity :: "int option"
  region_id :: "string option"

text \<open>
  A dictionary of \<open>st.session_state.stations\<close>: the row of \<open>stations_base\<close> with the two keys
  the generator adds.
\<close>

record station_record = station +
  bikes_available :: int
  docks_available :: int

subsection \<open>Feed documents\<close>

text \<open>
  A parsed JSON document has three levels that the code looks at. The value of a member of
  the \<open>data\<close> object is null, a scalar (number, string or boolean) or an array of station
  objects. An object in this place, which pandas would read column by column, and arrays of
  anything but station objects are not represented.
\<close>

datatype 'r member_value = Null | Scalar | StationArray "'r list"

text \<open>
  The value of a member of the document: an object, given by the items of the parsed dict,
  or anything that is not an object (null, a scalar or an array).
\<close>

datatype 'r data_value = NotAnObject | DataObject "(string \<times> 'r member_value) list"

text \<open>The document itself: an object or anything else.\<close>

datatype 'r document = NotADict | Document "(string \<times> 'r data_value) list"

text \<open>
  What \<open>urllib.request.urlopen(url)\<close> followed by \<open>read().decode()\<close> yields: an exception
  (\<open>URLError\<close> on a network failure or timeout, \<open>HTTPError\<close> on a status outside 2xx), or a
  body; \<open>json.loads\<close> either parses the body or raises \<open>JSONDecodeError\<close> (\<open>Body None\<close>).
\<close>

datatype 'r response = UrlopenRaises py_error | Body "'r document option"

text \<open>Python's \<open>d[k]\<close> on a dict with a string key.\<close>

definition dict_getitem :: "(string \<times> 'v) list \<Rightarrow> string \<Rightarrow> py_error + 'v" where
  "dict_getitem items k = (case map_of items k of None \<Rightarrow> Inl (KeyError k) | Some v \<Rightarrow> Inr v)"

text \<open>
  \<open>data['data']['stations']\<close>: subscripting anything but a dict with a string raises
  \<open>TypeError\<close>, a missing key raises \<open>KeyError\<close>.
\<close>

definition stations_member :: "'r document \<Rightarrow> py_error + 'r member_value" where
  "stations_member doc =
     (case doc of
        NotADict \<Rightarrow> Inl TypeError
      | Document items \<Rightarrow>
          (case dict_getitem items ''data'' of
             Inl e \<Rightarrow> Inl e
           | Inr NotAnObject \<Rightarrow> Inl TypeError
           | Inr (DataObject members) \<Rightarrow> dict_getitem members ''stations''))"

text \<open>
  \<open>pd.DataFrame(x)\<close>: a list of objects gives one row per object, \<open>None\<close> gives the empty
  frame, and a scalar raises \<open>ValueError\<close>.
\<close>

definition pd_DataFrame :: "'r member_value \<Rightarrow> py_error + 'r list" where
  "pd_DataFrame x =
     (case x of
        StationArray rows \<Rightarrow> Inr rows
      | Null \<Rightarrow> Inr []
      | Scalar \<Rightarrow> Inl ValueError)"

text \<open>
  The statements both fetching functions start with (tokyo_helpers.py, lines 14 to 16 and
  35 to 37):
  \<^verbatim>\<open>
    with urllib.request.urlopen(url) as data_url:
        data = json.loads(data_url.read().decode())
        df = pd.DataFrame(data['data']['stations'])
  \<close>
\<close>

definition load_stations :: "'r response \<Rightarrow> py_error + 'r list" where
  "load_stations resp =
     (case resp of
        UrlopenRaises e \<Rightarrow> Inl e
      | Body None \<Rightarrow> Inl JSONDecodeError
      | Body (Some doc) \<Rightarrow>
          (case stations_member doc of
             Inl e \<Rightarrow> Inl e
           | Inr s \<Rightarrow> pd_DataFrame s))"

subsection \<open>tokyo_helpers.py\<close>

text \<open>
  \<open>df.drop_duplicates(cols)\<close> with the default \<open>keep='first'\<close>: a row is dropped when an
  earlier row has the same values in the selected columns; the rows kept stay in order.
\<close>

fun drop_duplicates :: "('a \<Rightarrow> 'k) \<Rightarrow> 'a list \<Rightarrow> 'a list" where
  "drop_duplicates cols [] = []"
| "drop_duplicates cols (x # xs) =
     x # drop_duplicates cols (filter (\<lambda>y. cols y \<noteq> cols x) xs)"

text \<open>The two filters of lines 19 and 20; a null flag does not compare equal to \<open>True\<close>.\<close>

definition active_rows :: "status_row list \<Rightarrow> status_row list" where
  "active_rows df =
     filter (\<lambda>r. is_returning r = Some True) (filter (\<lambda>r. is_renting r = Some True) df)"

definition with_time :: "status_row \<Rightarrow> int \<Rightarrow> timed_row" where
  "with_time r t =
     \<lparr> station_id = station_id r, is_renting = is_renting r, is_returning = is_returning r,
       is_installed = is_installed r, num_bikes_available = num_bikes_available r,
       num_docks_available = num_docks_available r, last_reported = last_reported r,
       time = t \<rparr>"

text \<open>
  \<open>dt.datetime.utcfromtimestamp(x)\<close>, as CPython behaves on Linux with a 64-bit \<open>time_t\<close>:
  the years 1 to 9999 are accepted; beyond them it raises \<open>ValueError\<close>, \<open>OSError\<close> where
  \<open>gmtime\<close> fails, and \<open>OverflowError\<close> outside \<open>time_t\<close>. A datetime is represented by its
  POSIX seconds.
\<close>

definition utcfromtimestamp :: "int \<Rightarrow> py_error + int" where
  "utcfromtimestamp x =
     (if x < - (2 ^ 63) \<or> 2 ^ 63 \<le> x then Inl OverflowError
      else if x < - 67768040609740800 \<or> 67768036191676800 \<le> x then Inl OSError
      else if x < - 62135596800 \<or> 253402300800 \<le> x then Inl ValueError
      else Inr x)"

text \<open>
  Lines 24 to 29, row by row: the conversion raises \<open>ValueError\<close> on a null \<open>last_reported\<close>
  and as above on a number; the first row that fails ends the call. \<open>time\<close> is a copy of
  the converted column.
\<close>

fun stamp_rows :: "status_row list \<Rightarrow> py_error + timed_row list" where
  "stamp_rows [] = Inr []"
| "stamp_rows (r # rs) =
     (case last_reported r of
        None \<Rightarrow> Inl ValueError
      | Some x \<Rightarrow>
          (case utcfromtimestamp x of
             Inl e \<Rightarrow> Inl e
           | Inr t \<Rightarrow>
               (case stamp_rows rs of Inl e \<Rightarrow> Inl e | Inr ts \<Rightarrow> Inr (with_time r t # ts))))"

text \<open>
  \<open>query_station_status\<close> (tokyo_helpers.py, lines 12 to 31). A frame built from an empty
  list has no columns, so \<open>df['is_renting']\<close> raises \<open>KeyError\<close>. When the filters leave no
  row, the index that line 28 sets is not a \<open>DatetimeIndex\<close> and \<open>tz_localize\<close> of line 29
  raises \<open>AttributeError\<close>. The \<open>st.cache_data\<close> decorator is modelled where the function is
  called.
\<close>

definition query_station_status :: "status_row response \<Rightarrow> py_error + timed_row list" where
  "query_station_status resp =
     (case load_stations resp of
        Inl e \<Rightarrow> Inl e
      | Inr df \<Rightarrow>
          if df = [] then Inl (KeyError ''is_renting'')
          else
            (case stamp_rows
                    (drop_duplicates (\<lambda>r. (station_id r, last_reported r)) (active_rows df)) of
               Inl e \<Rightarrow> Inl e
             | Inr ts \<Rightarrow> if ts = [] then Inl AttributeError else Inr ts))"

text \<open>\<open>get_station_latlon\<close> (lines 33 to 39) returns the frame as loaded.\<close>

definition get_station_latlon :: "info_row response \<Rightarrow> py_error + info_row list" where
  "get_station_latlon resp = load_stations resp"

text \<open>
  \<open>left.merge(right, on='station_id', how='left')\<close>: for every left row, in the order of the
  left frame, one output row per right row with the same key, in the order of the right
  frame; a left row without a partner gives one output row whose right columns are null
  (\<open>None\<close> here).
\<close>

definition merge_left ::
  "'a keyed_scheme list \<Rightarrow> 'b keyed_scheme list
     \<Rightarrow> ('a keyed_scheme \<times> 'b keyed_scheme option) list" where
  "merge_left left right =
     concat (map (\<lambda>l.
       (let partners = filter (\<lambda>r. station_id r = station_id l) right
        in if partners = [] then [(l, None)] else map (\<lambda>r. (l, Some r)) partners)) left)"

definition select_latlon :: "info_row \<Rightarrow> latlon_row" where
  "select_latlon i =
     \<lparr> station_id = station_id i, latlon_row.lat = info_row.lat i,
       latlon_row.lon = info_row.lon i, latlon_row.name = info_row.name i,
       latlon_row.capacity = info_row.capacity i \<rparr>"

text \<open>
  \<open>join_latlon\<close> (lines 41 to 47). Selecting the five columns from a frame without columns
  (the empty frame) raises \<open>KeyError\<close>.
\<close>

definition join_latlon ::
  "timed_row list \<Rightarrow> info_row list \<Rightarrow> py_error + (timed_row \<times> latlon_row option) list" where
  "join_latlon df1 df2 =
     (if df2 = [] then Inl (KeyError ''station_id'')
      else Inr (merge_left df1 (map select_latlon df2)))"

subsection \<open>app.py: the reconciled station list\<close>

text \<open>One row of the merged frame, turned into a dictionary by \<open>to_dict(orient='records')\<close>.\<close>

definition merged_row :: "timed_row \<times> info_row option \<Rightarrow> station" where
  "merged_row p =
     (case p of (l, partner) \<Rightarrow>
       \<lparr> station_id = station_id l, is_renting = is_renting l, is_returning = is_returning l,
         is_installed = is_installed l, num_bikes_available = num_bikes_available l,
         num_docks_available = num_docks_available l, last_reported = last_reported l,
         time = time l,
         name = (case partner of None \<Rightarrow> None | Some i \<Rightarrow> info_row.name i),
         lat = (case partner of None \<Rightarrow> None | Some i \<Rightarrow> info_row.lat i),
         lon = (case partner of None \<Rightarrow> None | Some i \<Rightarrow> info_row.lon i),
         capacity = (case partner of None \<Rightarrow> None | Some i \<Rightarrow> info_row.capacity i),
         region_id = (case partner of None \<Rightarrow> None | Some i \<Rightarrow> info_row.region_id i) \<rparr>)"

text \<open>
  Lines 71 and 73:
  \<^verbatim>\<open>
    stations_base = station_status_df.merge(station_info_df, on="station_id", how="left")
    stations_base = stations_base.to_dict(orient='records')
  \<close>
  Merging with a frame that has no \<open>station_id\<close> column (the empty frame) raises \<open>KeyError\<close>.
  Line 46 computes the same merge into \<open>df\<close>, which every page overwrites before reading.
\<close>

definition merge_stations :: "timed_row list \<Rightarrow> info_row list \<Rightarrow> py_error + station list" where
  "merge_stations station_status_df station_info_df =
     (if station_info_df = [] then Inl (KeyError ''station_id'')
      else Inr (map merged_row (merge_left station_status_df station_info_df)))"

subsection \<open>app.py: the availability generator\<close>

text \<open>
  \<open>get_random_availability\<close> returns \<open>random.randint(0, capacity)\<close>. The generator's choice is
  a parameter: \<open>raw\<close> is a natural number taken from the random source, reduced to the
  range. \<open>randint\<close> raises \<open>ValueError\<close> on an empty range. A null capacity is NaN in the
  numeric column of the merged frame, and \<open>randint\<close> raises \<open>ValueError\<close> on it (CPython up
  to 3.11; later versions, and a \<open>None\<close> in a column of objects, give \<open>TypeError\<close>: the
  class of this exception is not distinguished here).
\<close>

definition get_random_availability :: "int option \<Rightarrow> nat \<Rightarrow> py_error + int" where
  "get_random_availability cap raw =
     (case cap of
        None \<Rightarrow> Inl ValueError
      | Some c \<Rightarrow> if c < 0 then Inl ValueError else Inr (int (raw mod nat (c + 1))))"

text \<open>
  The body of the two \<open>for\<close> statements (lines 80 to 84 and 338 to 342) on one dictionary:
  \<^verbatim>\<open>
    station['bikes_available'] = get_random_availability(station['capacity'])
    station['docks_available'] = station['capacity'] - station['bikes_available']
    station['is_renting'] = True
    station['is_returning'] = True
    station['is_installed'] = True
  \<close>
\<close>

definition assign_availability :: "station \<Rightarrow> nat \<Rightarrow> py_error + station_record" where
  "assign_availability s raw =
     (case get_random_availability (capacity s) raw of
        Inl e \<Rightarrow> Inl e
      | Inr b \<Rightarrow>
          (case capacity s of
             None \<Rightarrow> Inl TypeError
           | Some c \<Rightarrow>
               Inr \<lparr> station_id = station_id s, is_renting = Some True, is_returning = Some True,
                     is_installed = Some True, num_bikes_available = num_bikes_available s,
                     num_docks_available = num_docks_available s,
                     last_reported = last_reported s, time = time s, name = name s,
                     lat = lat s, lon = lon s, capacity = capacity s, region_id = region_id s,
                     bikes_available = b, docks_available = c - b \<rparr>))"

text \<open>
  The loop \<open>for station in stations_base: ...; st.session_state.stations.append(station)\<close>.
  \<open>acc\<close> is \<open>st.session_state.stations\<close> so far, \<open>k\<close> counts the calls of the random source
  and \<open>draws k\<close> is what call \<open>k\<close> yields. An exception leaves the list as far as it got.
\<close>

fun generate :: "(nat \<Rightarrow> nat) \<Rightarrow> nat \<Rightarrow> station list \<Rightarrow> station_record list
                   \<Rightarrow> station_record list \<times> py_error option" where
  "generate draws k [] acc = (acc, None)"
| "generate draws k (s # rest) acc =
     (case assign_availability s (draws k) of
        Inl e \<Rightarrow> (acc, Some e)
      | Inr r \<Rightarrow> generate draws (Suc k) rest (acc @ [r]))"

subsection \<open>app.py: the session\<close>

text \<open>
  \<open>st.session_state\<close>: \<open>last_update\<close> is \<open>None\<close> while the key is not in the session;
  \<open>stations\<close> is read only after line 78 or 336 has set it and is \<open>[]\<close> before.
\<close>

record session_state =
  last_update :: "int option"
  stations :: "station_record list"

definition fresh_session :: session_state where
  "fresh_session = \<lparr> last_update = None, stations = [] \<rparr>"

text \<open>
  Lines 76 to 85; \<open>now\<close> is what \<open>datetime.now()\<close> returns. The second component is the
  exception that ended the block, if any.
  \<^verbatim>\<open>
    if 'last_update' not in st.session_state:
        st.session_state.last_update = datetime.now()
        st.session_state.stations = []
        for station in stations_base: ...
  \<close>
\<close>

definition initialize_session ::
  "session_state \<Rightarrow> station list \<Rightarrow> int \<Rightarrow> (nat \<Rightarrow> nat) \<Rightarrow> session_state \<times> py_error option" where
  "initialize_session ss stations_base now draws =
     (if last_update ss = None then
        (case generate draws 0 stations_base [] of
           (acc, err) \<Rightarrow> (\<lparr> last_update = Some now, stations = acc \<rparr>, err))
      else (ss, None))"

text \<open>The body of \<open>if st.button("Refresh Data", ...)\<close>, lines 335 to 343.\<close>

definition refresh_data ::
  "session_state \<Rightarrow> station list \<Rightarrow> int \<Rightarrow> (nat \<Rightarrow> nat) \<Rightarrow> session_state \<times> py_error option" where
  "refresh_data ss stations_base now draws =
     (case generate draws 0 stations_base [] of
        (acc, err) \<Rightarrow> (\<lparr> last_update = Some now, stations = acc \<rparr>, err))"

subsection \<open>app.py: the stateful part of a run\<close>

text \<open>
  Streamlit runs the script from the top on every interaction of the user; the session
  state and the cache of \<open>st.cache_data\<close> outlive the run. \<open>query_station_status\<close> carries the
  decorator: once it has returned for the URL, later calls return the cached frame and do
  not fetch; an exception is not cached. \<open>get_station_latlon\<close> has no decorator.
\<close>

record app_state =
  status_cache :: "timed_row list option"
  session :: session_state

definition cached_query_station_status ::
  "timed_row list option \<Rightarrow> status_row response
     \<Rightarrow> (py_error + timed_row list) \<times> timed_row list option" where
  "cached_query_station_status cache resp =
     (case cache of
        Some df \<Rightarrow> (Inr df, cache)
      | None \<Rightarrow>
          (case query_station_status resp of
             Inl e \<Rightarrow> (Inl e, None)
           | Inr df \<Rightarrow> (Inr df, Some df)))"

text \<open>What one run receives from outside: the answers of the two endpoints, the clock, the
  random source, and whether the user is on the Settings page pressing ``Refresh Data''.\<close>

record run_input =
  status_response :: "status_row response"
  info_response :: "info_row response"
  now :: int
  draws :: "nat \<Rightarrow> nat"
  refresh_pressed :: bool

text \<open>
  Lines 42 to 73: the two fetches and the merge. The second component is the cache after
  the call of \<open>query_station_status\<close>.
\<close>

definition fetch_stations_base ::
  "timed_row list option \<Rightarrow> run_input \<Rightarrow> (py_error + station list) \<times> timed_row list option" where
  "fetch_stations_base cache inp =
     (case cached_query_station_status cache (status_response inp) of
        (Inl e, cache') \<Rightarrow> (Inl e, cache')
      | (Inr station_status_df, cache') \<Rightarrow>
          (case get_station_latlon (info_response inp) of
             Inl e \<Rightarrow> (Inl e, cache')
           | Inr station_info_df \<Rightarrow> (merge_stations station_status_df station_info_df, cache')))"

text \<open>
  Lines 76 to 85 and, when the user is on the Settings page and presses the button, lines
  335 to 343. If the session block has run, the random source has already been called once
  per station.
\<close>

definition session_step ::
  "session_state \<Rightarrow> station list \<Rightarrow> run_input \<Rightarrow> session_state \<times> py_error option" where
  "session_step ss stations_base inp =
     (case initialize_session ss stations_base (now inp) (draws inp) of
        (ss', Some e) \<Rightarrow> (ss', Some e)
      | (ss', None) \<Rightarrow>
          if refresh_pressed inp
          then refresh_data ss' stations_base (now inp)
                 (\<lambda>k. draws inp (k + (if last_update ss = None then length stations_base else 0)))
          else (ss', None))"

text \<open>
  The statements of a run that fetch or that write \<open>st.session_state\<close>: lines 42 to 85
  and, on the Settings page, the body of the button. The second component is the exception
  that one of these statements raised, if any: it ends the run, and what the run stored
  before stays stored. The rest of the page code only reads the session; it is not part of
  this function, and neither are the exceptions that rendering a page may raise.
\<close>

definition run_session_code :: "app_state \<Rightarrow> run_input \<Rightarrow> app_state \<times> py_error option" where
  "run_session_code a inp =
     (case fetch_stations_base (status_cache a) inp of
        (Inl e, cache') \<Rightarrow> (\<lparr> status_cache = cache', session = session a \<rparr>, Some e)
      | (Inr stations_base, cache') \<Rightarrow>
          (case session_step (session a) stations_base inp of
             (ss, err) \<Rightarrow> (\<lparr> status_cache = cache', session = ss \<rparr>, err)))"

text \<open>
  What a page works on: every page but Settings starts with
  \<open>df = pd.DataFrame(st.session_state.stations)\<close>, the frame whose rows are the
  dictionaries of the list.
\<close>

definition page_frame :: "app_state \<Rightarrow> station_record list" where
  "page_frame a = stations (session a)"

text \<open>
  Reading the snapshot: a run of the script on a page other than Settings, where no button
  is drawn. The page is reached only when lines 42 to 85 have not raised; its first
  statement then reads the stored list. The result is that list, or the exception that
  ended the run before the page.
\<close>

definition get_snapshot ::
  "app_state \<Rightarrow> run_input \<Rightarrow> app_state \<times> (py_error + station_record list)" where
  "get_snapshot a inp =
     (case run_session_code a (inp\<lparr> refresh_pressed := False \<rparr>) of
        (a', Some e) \<Rightarrow> (a', Inl e)
      | (a', None) \<Rightarrow> (a', Inr (page_frame a')))"

definition fresh_app :: app_state where
  "fresh_app = \<lparr> status_cache = None, session = fresh_session \<rparr>"

subsection \<open>app.py: the Analytics page\<close>

text \<open>
  \<open>df.nlargest(n, column)\<close> with the default \<open>keep='first'\<close>, as pandas documents it: the \<open>n\<close>
  rows with the largest values in \<open>column\<close>, in descending order, rows with equal values in
  the order of the frame. pandas sorts the negated values with a stable sort and takes the
  first \<open>n\<close>; \<open>sort_key\<close> is a stable insertion sort. The columns sorted here are integers
  without nulls.
\<close>

definition nlargest :: "nat \<Rightarrow> ('a \<Rightarrow> int) \<Rightarrow> 'a list \<Rightarrow> 'a list" where
  "nlargest n column df = take n (sort_key (\<lambda>r. - column r) df)"

text \<open>
  The Analytics page, lines 281 to 284:
  \<^verbatim>\<open>
    df = pd.DataFrame(st.session_state.stations)
    df['utilization_rate'] = df.apply(
        lambda row: calculate_utilization(row['bikes_available'], row['capacity']), axis=1)
  \<close>
  A frame built from the empty list has no columns; \<open>apply\<close> returns the empty frame and
  assigning a frame without columns to one column raises \<open>ValueError\<close>. Otherwise every row
  has all the keys. The column added here is not selected by the two queries below and is
  not carried in the rows.
\<close>

definition analytics_frame :: "station_record list \<Rightarrow> py_error + station_record list" where
  "analytics_frame stations_list = (if stations_list = [] then Inl ValueError else Inr stations_list)"

text \<open>
  Lines 320 and 325: of \<open>df.nlargest(5, 'bikes_available')\<close> the page keeps the columns name,
  bikes_available, capacity, and of \<open>df.nlargest(5, 'docks_available')\<close> the columns name,
  docks_available, capacity. The chart calls between line 284 and line 320 are taken to
  return.
\<close>

definition bikes_columns :: "station_record \<Rightarrow> string option \<times> int \<times> int option" where
  "bikes_columns r = (station.name r, bikes_available r, station.capacity r)"

definition docks_columns :: "station_record \<Rightarrow> string option \<times> int \<times> int option" where
  "docks_columns r = (station.name r, docks_available r, station.capacity r)"

definition top_bikes ::
  "station_record list \<Rightarrow> py_error + (string option \<times> int \<times> int option) list" where
  "top_bikes stations_list =
     (case analytics_frame stations_list of
        Inl e \<Rightarrow> Inl e
      | Inr df \<Rightarrow> Inr (map bikes_columns (nlargest 5 bikes_available df)))"

definition top_docks ::
  "station_record list \<Rightarrow> py_error + (string option \<times> int \<times> int option) list" where
  "top_docks stations_list =
     (case analytics_frame stations_list of
        Inl e \<Rightarrow> Inl e
      | Inr df \<Rightarrow> Inr (map docks_columns (nlargest 5 docks_available df)))"

subsection \<open>Predicates used in the statements\<close>

text \<open>
  The invariant of a generated record: the capacity is a number, the bikes are between 0
  and the capacity, and bikes and docks add up to the capacity.
\<close>

definition availability_invariant :: "station_record \<Rightarrow> bool" where
  "availability_invariant r =
     (case capacity r of
        None \<Rightarrow> False
      | Some c \<Rightarrow> 0 \<le> bikes_available r \<and> bikes_available r \<le> c
                  \<and> bikes_available r + docks_available r = c)"

text \<open>
  A row or record \<open>x\<close> stems from a record of the feed that was renting and returning:
  some feed record has its station_id and last_reported and both flags \<open>True\<close>.
\<close>

definition active_in :: "status_row list \<Rightarrow> 'a status_row_scheme \<Rightarrow> bool" where
  "active_in rows x =
     (\<exists>r\<in>set rows. station_id r = station_id x \<and> last_reported r = last_reported x
        \<and> is_renting r = Some True \<and> is_returning r = Some True)"

text \<open>Everything the application holds, cache and snapshot, stems from such records.\<close>

definition traces_to :: "status_row list \<Rightarrow> app_state \<Rightarrow> bool" where
  "traces_to rows a =
     ((\<forall>t\<in>set (case status_cache a of None \<Rightarrow> [] | Some df \<Rightarrow> df). active_in rows t)
      \<and> (\<forall>s\<in>set (stations (session a)). active_in rows s))"

text \<open>
  The columns of a station that the generator does not write: all but bikes_available,
  docks_available and the three flags.
\<close>

definition static_columns ::
  "'a station_scheme \<Rightarrow>
     string \<times> int option \<times> int option \<times> int option \<times> int
       \<times> string option \<times> rat option \<times> rat option \<times> int option \<times> string option" where
  "static_columns s =
     (station_id s, num_bikes_available s, num_docks_available s, last_reported s, time s,
      station.name s, station.lat s, station.lon s, station.capacity s, station.region_id s)"

subsection \<open>Sample feeds\<close>

text \<open>Small concrete inputs, used where a statement is evaluated.\<close>

definition sample_status :: "string \<Rightarrow> bool \<Rightarrow> bool \<Rightarrow> int \<Rightarrow> status_row" where
  "sample_status sid renting returning reported =
     \<lparr> station_id = sid, is_renting = Some renting, is_returning = Some returning,
       is_installed = Some True, num_bikes_available = Some 2, num_docks_available = Some 3,
       last_reported = Some reported \<rparr>"

definition sample_info :: "string \<Rightarrow> string \<Rightarrow> int \<Rightarrow> info_row" where
  "sample_info sid nm cap =
     \<lparr> station_id = sid, info_row.name = Some nm, info_row.lat = Some 35,
       info_row.lon = Some 139, info_row.capacity = Some cap,
       info_row.region_id = Some ''13'' \<rparr>"

definition feed :: "'r list \<Rightarrow> 'r response" where
  "feed rows =
     Body (Some (Document [(''data'', DataObject [(''stations'', StationArray rows)])]))"

definition sample_station :: "string \<Rightarrow> int option \<Rightarrow> station" where
  "sample_station sid cap =
     \<lparr> station_id = sid, is_renting = Some True, is_returning = Some True,
       is_installed = Some True, num_bikes_available = Some 2, num_docks_available = Some 3,
       last_reported = Some 100, time = 100, name = Some ''Shibuya'', lat = Some 35,
       lon = Some 139, capacity = cap, region_id = Some ''13'' \<rparr>"

definition sample_run :: "bool \<Rightarrow> run_input" where
  "sample_run pressed =
     \<lparr> status_response =
         feed [sample_status ''A'' True True 100, sample_status ''B'' False True 100,
               sample_status ''C'' True True 300],
       info_response = feed [sample_info ''A'' ''Shibuya'' 10, sample_info ''C'' ''Ueno'' 4],
       now = 1000, draws = (\<lambda>k. 7 + k), refresh_pressed = pressed \<rparr>"

text \<open>A status feed that reports station A twice, with different timestamps.\<close>

definition duplicate_run :: run_input where
  "duplicate_run =
     \<lparr> status_response =
         feed [sample_status ''A'' True True 100, sample_status ''A'' True True 200],
       info_response = feed [sample_info ''A'' ''Shibuya'' 10],
       now = 1000, draws = (\<lambda>k. 7 + k), refresh_pressed = False \<rparr>"

definition sample_timed :: "string \<Rightarrow> int \<Rightarrow> timed_row" where
  "sample_timed sid reported = with_time (sample_status sid True True reported) reported"

text \<open>
  A later run in which the user presses ``Refresh Data'' and the information endpoint
  answers with another name and capacity for station A.
\<close>

definition changed_info_run :: run_input where
  "changed_info_run =
     \<lparr> status_response =
         feed [sample_status ''A'' True True 100, sample_status ''B'' False True 100,
               sample_status ''C'' True True 300],
       info_response =
         feed [sample_info ''A'' ''Shibuya Crossing'' 20, sample_info ''C'' ''Ueno'' 4],
       now = 2000, draws = (\<lambda>k. 7 + k), refresh_pressed = True \<rparr>"

text \<open>
  A later run in which the user presses ``Refresh Data'' and the information endpoint no
  longer lists station C.
\<close>

definition lost_info_run :: run_input where
  "lost_info_run =
     \<lparr> status_response =
         feed [sample_status ''A'' True True 100, sample_status ''B'' False True 100,
               sample_status ''C'' True True 300],
       info_response = feed [sample_info ''A'' ''Shibuya'' 10],
       now = 2000, draws = (\<lambda>k. 7 + k), refresh_pressed = True \<rparr>"

text \<open>Runs in which an endpoint fails, or answers with a document without the station list.\<close>

definition failing_run :: run_input where
  "failing_run =
     \<lparr> status_response = UrlopenRaises (HTTPError 503),
       info_response = feed [sample_info ''A'' ''Shibuya'' 10],
       now = 1000, draws = (\<lambda>k. 7 + k), refresh_pressed = False \<rparr>"

definition unshaped_run :: run_input where
  "unshaped_run =
     \<lparr> status_response = feed [sample_status ''A'' True True 100],
       info_response = Body (Some (Document [(''data'', DataObject [(''ttl'', Scalar)])])),
       now = 1000, draws = (\<lambda>k. 7 + k), refresh_pressed = False \<rparr>"

text \<open>A run in which the information endpoint cannot be reached.\<close>

definition info_down_run :: run_input where
  "info_down_run =
     \<lparr> status_response = feed [sample_status ''A'' True True 100],
       info_response = UrlopenRaises URLError,
       now = 3000, draws = (\<lambda>k. 7 + k), refresh_pressed = False \<rparr>"

text \<open>Both endpoints answer with a station list, but station A has no information record.\<close>

definition unmatched_run :: run_input where
  "unmatched_run =
     \<lparr> status_response = feed [sample_status ''A'' True True 100],
       info_response = feed [sample_info ''C'' ''Ueno'' 4],
       now = 1000, draws = (\<lambda>k. 7 + k), refresh_pressed = False \<rparr>"

text \<open>A generated record of station \<open>sid\<close> with the given bikes and capacity.\<close>

definition sample_record :: "string \<Rightarrow> int \<Rightarrow> int \<Rightarrow> station_record" where
  "sample_record sid bikes cap =
     \<lparr> station_id = sid, is_renting = Some True, is_returning = Some True,
       is_installed = Some True, num_bikes_available = Some 2, num_docks_available = Some 3,
       last_reported = Some 100, time = 100, name = Some ''Shibuya'', lat = Some 35,
       lon = Some 139, capacity = Some cap, region_id = Some ''13'',
       bikes_available = bikes, docks_available = cap - bikes \<rparr>"

section \<open>Theorems\<close>

subsection \<open>C7: status classification\<close>

text \<open>
  C7. For every non-negative integer number of bikes, both colour functions return green
  (ok) when bikes > 3, orange respectively yellow (low) when 0 < bikes <= 3, and red
  (empty) when bikes = 0; the threshold 3 is a literal of the code. In particular 4 is ok,
  1 is low and 0 is empty.
\<close>

theorem status_class_thresholds:
  "0 \<le> bikes \<Longrightarrow>
     (bikes > 3 \<longrightarrow> get_status_color bikes = ''green'' \<and> get_marker_color bikes = ''green''
        \<and> class_of_colour (get_status_color bikes) = Some Ok
        \<and> class_of_colour (get_marker_color bikes) = Some Ok) \<and>
     (0 < bikes \<and> bikes \<le> 3 \<longrightarrow>
        get_status_color bikes = ''orange'' \<and> get_marker_color bikes = ''yellow''
        \<and> class_of_colour (get_status_color bikes) = Some Low
        \<and> class_of_colour (get_marker_color bikes) = Some Low) \<and>
     (bikes = 0 \<longrightarrow> get_status_color bikes = ''red'' \<and> get_marker_color bikes = ''red''
        \<and> class_of_colour (get_status_color bikes) = Some Empty
        \<and> class_of_colour (get_marker_color bikes) = Some Empty)"
  by (simp add: get_status_color_def get_marker_color_def class_of_colour_def)

theorem status_class_thresholds_witness:
  "class_of_colour (get_status_color 4) = Some Ok
   \<and> class_of_colour (get_status_color 1) = Some Low
   \<and> class_of_colour (get_status_color 0) = Some Empty
   \<and> get_marker_color 4 = ''green'' \<and> get_marker_color 1 = ''yellow''
   \<and> get_marker_color 0 = ''red''"
  using status_class_thresholds [of 4] status_class_thresholds [of 1]
    status_class_thresholds [of 0]
  by (simp add: class_of_colour_def)

subsection \<open>C2: the invariant of the availability generator\<close>

lemma randint_range:
  "get_random_availability cap raw = Inr b \<Longrightarrow> \<exists>c. cap = Some c \<and> 0 \<le> b \<and> b \<le> c"
proof -
  assume a: "get_random_availability cap raw = Inr b"
  then obtain c where c: "cap = Some c" "0 \<le> c" "b = int (raw mod nat (c + 1))"
    by (auto simp: get_random_availability_def split: option.splits if_splits)
  have "raw mod nat (c + 1) < nat (c + 1)" using c(2) by simp
  then have "b \<le> c" using c(2,3) by linarith
  with c show ?thesis by simp
qed

text \<open>The reduction of the random source loses no value of the range.\<close>

lemma randint_onto:
  "0 \<le> b \<Longrightarrow> b \<le> c \<Longrightarrow> get_random_availability (Some c) (nat b) = Inr b"
  by (simp add: get_random_availability_def)

lemma assign_availability_invariant:
  "assign_availability s raw = Inr r \<Longrightarrow> availability_invariant r"
  by (auto simp: assign_availability_def availability_invariant_def
      split: sum.splits option.splits dest!: randint_range)

lemma assign_availability_total:
  "capacity s = Some c \<Longrightarrow> 0 \<le> c \<Longrightarrow> \<exists>r. assign_availability s raw = Inr r"
  by (simp add: assign_availability_def get_random_availability_def)

lemma generate_invariant:
  "\<forall>r\<in>set acc. availability_invariant r \<Longrightarrow>
   \<forall>r\<in>set (fst (generate d k sb acc)). availability_invariant r"
proof (induction sb arbitrary: k acc)
  case Nil
  then show ?case by simp
next
  case (Cons s rest)
  show ?case
  proof (cases "assign_availability s (d k)")
    case (Inl e)
    with Cons.prems show ?thesis by simp
  next
    case (Inr r)
    then have "availability_invariant r" by (rule assign_availability_invariant)
    with Cons.prems have "\<forall>x\<in>set (acc @ [r]). availability_invariant x" by simp
    from Cons.IH [OF this] Inr show ?thesis by simp
  qed
qed

text \<open>The definitions a concrete run unfolds.\<close>

lemmas pipeline_defs =
  run_session_code_def fetch_stations_base_def session_step_def cached_query_station_status_def
  query_station_status_def get_station_latlon_def load_stations_def stations_member_def dict_getitem_def
  pd_DataFrame_def active_rows_def merge_stations_def merge_left_def merged_row_def
  initialize_session_def refresh_data_def assign_availability_def
  get_random_availability_def with_time_def utcfromtimestamp_def feed_def sample_status_def sample_info_def
  sample_run_def fresh_app_def fresh_session_def sample_station_def

lemma initialize_session_invariant:
  "\<forall>r\<in>set (stations ss). availability_invariant r \<Longrightarrow>
   \<forall>r\<in>set (stations (fst (initialize_session ss sb t d))). availability_invariant r"
  using generate_invariant [of "[]" d 0 sb]
  by (simp add: initialize_session_def split: prod.splits)

lemma refresh_data_invariant:
  "\<forall>r\<in>set (stations (fst (refresh_data ss sb t d))). availability_invariant r"
  using generate_invariant [of "[]" d 0 sb]
  by (simp add: refresh_data_def split: prod.splits)

lemma session_step_invariant:
  assumes "\<forall>r\<in>set (stations ss). availability_invariant r"
  shows "\<forall>r\<in>set (stations (fst (session_step ss sb inp))). availability_invariant r"
proof (cases "initialize_session ss sb (now inp) (draws inp)")
  case (Pair ss' err)
  have i: "\<forall>r\<in>set (stations ss'). availability_invariant r"
    using initialize_session_invariant [OF assms, of sb "now inp" "draws inp"] Pair by simp
  show ?thesis
  proof (cases "err = None \<and> refresh_pressed inp")
    case True
    then show ?thesis
      using Pair refresh_data_invariant [of ss' sb "now inp"]
      by (simp add: session_step_def)
  next
    case False
    then show ?thesis using Pair i
      by (auto simp: session_step_def split: option.splits)
  qed
qed

lemma run_session_code_invariant:
  assumes "\<forall>r\<in>set (stations (session a)). availability_invariant r"
  shows "\<forall>r\<in>set (stations (session (fst (run_session_code a inp)))). availability_invariant r"
proof (cases "fetch_stations_base (status_cache a) inp")
  case (Pair res cache')
  show ?thesis
  proof (cases res)
    case (Inl e)
    with Pair assms show ?thesis by (simp add: run_session_code_def)
  next
    case (Inr sb)
    with Pair session_step_invariant [OF assms, of sb inp] show ?thesis
      by (simp add: run_session_code_def split: prod.splits)
  qed
qed

text \<open>
  C2. A station whose capacity is a non-negative integer always gets a record, with
  0 <= bikes_available <= capacity and bikes_available + docks_available = capacity. Every
  record of every snapshot satisfies the invariant: after the first materialization, after
  a refresh, and after any run of the script from a session that satisfied it.
\<close>

theorem generated_availability_in_range:
  "(capacity s = Some c \<and> 0 \<le> c \<longrightarrow>
      (\<exists>r. assign_availability s raw = Inr r \<and> 0 \<le> bikes_available r
           \<and> bikes_available r \<le> c \<and> bikes_available r + docks_available r = c))
   \<and> (\<forall>r\<in>set (stations (fst (initialize_session fresh_session sb t d))).
         availability_invariant r)
   \<and> (\<forall>r\<in>set (stations (fst (refresh_data ss sb t d))). availability_invariant r)
   \<and> ((\<forall>r\<in>set (stations (session a)). availability_invariant r) \<longrightarrow>
        (\<forall>r\<in>set (stations (session (fst (run_session_code a inp)))). availability_invariant r))"
proof (intro conjI impI)
  assume h: "capacity s = Some c \<and> 0 \<le> c"
  then obtain r where r: "assign_availability s raw = Inr r"
    using assign_availability_total by blast
  then have "availability_invariant r" by (rule assign_availability_invariant)
  moreover have "capacity r = Some c"
    using r h by (auto simp: assign_availability_def split: sum.splits option.splits)
  ultimately show "\<exists>r. assign_availability s raw = Inr r \<and> 0 \<le> bikes_available r
           \<and> bikes_available r \<le> c \<and> bikes_available r + docks_available r = c"
    using r by (auto simp: availability_invariant_def)
next
  show "\<forall>r\<in>set (stations (fst (initialize_session fresh_session sb t d))).
         availability_invariant r"
    by (rule initialize_session_invariant) (simp add: fresh_session_def)
next
  show "\<forall>r\<in>set (stations (fst (refresh_data ss sb t d))). availability_invariant r"
    by (rule refresh_data_invariant)
next
  assume "\<forall>r\<in>set (stations (session a)). availability_invariant r"
  then show "\<forall>r\<in>set (stations (session (fst (run_session_code a inp)))). availability_invariant r"
    by (rule run_session_code_invariant)
qed


theorem generated_availability_in_range_witness:
  "(\<exists>r. assign_availability (sample_station ''A'' (Some 10)) 7 = Inr r \<and> 0 \<le> bikes_available r
           \<and> bikes_available r \<le> 10 \<and> bikes_available r + docks_available r = 10)
   \<and> length (stations (fst (initialize_session fresh_session
          [sample_station ''A'' (Some 10)] 5 (\<lambda>k. 7)))) = 1
   \<and> list_all availability_invariant (stations (fst (initialize_session fresh_session
          [sample_station ''A'' (Some 10)] 5 (\<lambda>k. 7))))
   \<and> length (stations (fst (refresh_data fresh_session
          [sample_station ''A'' (Some 10)] 5 (\<lambda>k. 7)))) = 1
   \<and> list_all availability_invariant (stations (fst (refresh_data fresh_session
          [sample_station ''A'' (Some 10)] 5 (\<lambda>k. 7))))
   \<and> length (stations (session (fst (run_session_code fresh_app (sample_run False))))) = 2
   \<and> list_all availability_invariant
        (stations (session (fst (run_session_code fresh_app (sample_run False)))))"
proof -
  have a: "\<forall>r\<in>set (stations (session fresh_app)). availability_invariant r"
    by (simp add: fresh_app_def fresh_session_def)
  have b: "station.capacity (sample_station ''A'' (Some 10)) = Some 10 \<and> (0::int) \<le> 10"
    by (simp add: sample_station_def)
  have l1: "length (stations (fst (initialize_session fresh_session
          [sample_station ''A'' (Some 10)] 5 (\<lambda>k. 7)))) = 1"
    by (simp add: pipeline_defs)
  have l2: "length (stations (fst (refresh_data fresh_session
          [sample_station ''A'' (Some 10)] 5 (\<lambda>k. 7)))) = 1"
    by (simp add: pipeline_defs)
  have l3: "length (stations (session (fst (run_session_code fresh_app (sample_run False))))) = 2"
    by (simp add: pipeline_defs)
  show ?thesis
    using generated_availability_in_range [of "sample_station ''A'' (Some 10)" 10 7
        "[sample_station ''A'' (Some 10)]" 5 "\<lambda>k. 7" fresh_session fresh_app
        "sample_run False"] a b l1 l2 l3
    by (simp add: list_all_iff)
qed

subsection \<open>Facts about the status frame\<close>

lemma set_drop_duplicates: "set (drop_duplicates f xs) \<subseteq> set xs"
  by (induction f xs rule: drop_duplicates.induct) auto

lemma keys_drop_duplicates: "f ` set (drop_duplicates f xs) = f ` set xs"
  by (induction f xs rule: drop_duplicates.induct) auto

lemma distinct_drop_duplicates: "distinct (map f (drop_duplicates f xs))"
proof (induction f xs rule: drop_duplicates.induct)
  case (1 f)
  show ?case by simp
next
  case (2 f x xs)
  have "f x \<notin> f ` set (drop_duplicates f (filter (\<lambda>y. f y \<noteq> f x) xs))"
    by (auto simp: keys_drop_duplicates)
  with 2 show ?case by simp
qed

lemma find_filter_other:
  "k \<noteq> j \<Longrightarrow> find (\<lambda>y. f y = k) (filter (\<lambda>y. f y \<noteq> j) xs) = find (\<lambda>y. f y = k) xs"
  by (induction xs) auto

lemma find_drop_duplicates:
  "find (\<lambda>y. f y = k) (drop_duplicates f xs) = find (\<lambda>y. f y = k) xs"
proof (induction f xs rule: drop_duplicates.induct)
  case (1 f)
  show ?case by simp
next
  case (2 f x xs)
  show ?case
  proof (cases "f x = k")
    case True
    then show ?thesis by simp
  next
    case False
    then have "find (\<lambda>y. f y = k) (filter (\<lambda>y. f y \<noteq> f x) xs) = find (\<lambda>y. f y = k) xs"
      using find_filter_other [of k "f x" f xs] by simp
    with 2 False show ?thesis by simp
  qed
qed

lemma subseq_drop_duplicates: "subseq (drop_duplicates f xs) xs"
proof (induction f xs rule: drop_duplicates.induct)
  case (1 f)
  show ?case by simp
next
  case (2 f x xs)
  have "subseq (filter (\<lambda>y. f y \<noteq> f x) xs) xs" by simp
  with 2 have "subseq (drop_duplicates f (filter (\<lambda>y. f y \<noteq> f x) xs)) xs"
    using subseq_order.order_trans by blast
  then show ?case by simp
qed

lemma truncate_with_time [simp]: "status_row.truncate (with_time r t) = r"
  by (simp add: with_time_def status_row.truncate_def)

lemma with_time_sel [simp]:
  "station_id (with_time r t) = station_id r"
  "is_renting (with_time r t) = is_renting r"
  "is_returning (with_time r t) = is_returning r"
  "is_installed (with_time r t) = is_installed r"
  "num_bikes_available (with_time r t) = num_bikes_available r"
  "num_docks_available (with_time r t) = num_docks_available r"
  "last_reported (with_time r t) = last_reported r"
  "time (with_time r t) = t"
  by (simp_all add: with_time_def)

lemma utcfromtimestamp_Inr: "utcfromtimestamp x = Inr t \<Longrightarrow> t = x"
  by (simp add: utcfromtimestamp_def split: if_splits)

lemma stamp_rows_Inr:
  "stamp_rows rs = Inr ts \<Longrightarrow>
     map status_row.truncate ts = rs \<and> (\<forall>t\<in>set ts. last_reported t = Some (time t))"
proof (induction rs arbitrary: ts)
  case Nil
  then show ?case by simp
next
  case (Cons r rs)
  then show ?case
    by (auto split: option.splits sum.splits dest!: utcfromtimestamp_Inr)
qed

lemma query_station_status_Inr:
  assumes "query_station_status resp = Inr df"
  shows "\<exists>rows. load_stations resp = Inr rows \<and> rows \<noteq> [] \<and> df \<noteq> []
           \<and> map status_row.truncate df
               = drop_duplicates (\<lambda>r. (station_id r, last_reported r)) (active_rows rows)
           \<and> (\<forall>t\<in>set df. last_reported t = Some (time t))"
  using assms stamp_rows_Inr
  by (fastforce simp: query_station_status_def split: sum.splits if_splits)

subsection \<open>C1: what the deduplication keeps\<close>

lemma truncate_sel [simp]:
  "station_id (status_row.truncate t) = station_id t"
  "is_renting (status_row.truncate t) = is_renting t"
  "is_returning (status_row.truncate t) = is_returning t"
  "last_reported (status_row.truncate t) = last_reported t"
  by (simp_all add: status_row.truncate_def)

text \<open>
  C1 (amended). The deduplication step keeps, for every distinct pair of station_id and
  last_reported among the renting and returning records, exactly one record, the first in
  feed order, and keeps the order of the feed. Records with the same station_id and
  different last_reported are therefore all kept: the pair of every active record occurs
  in the result.
\<close>

theorem drop_duplicates_per_id_and_timestamp:
  assumes "query_station_status resp = Inr df" and "load_stations resp = Inr rows"
  shows "distinct (map (\<lambda>t. (station_id t, last_reported t)) df)
     \<and> (\<forall>k. find (\<lambda>r. (station_id r, last_reported r) = k) (map status_row.truncate df)
            = find (\<lambda>r. (station_id r, last_reported r) = k) (active_rows rows))
     \<and> subseq (map status_row.truncate df) (active_rows rows)
     \<and> (\<forall>r\<in>set (active_rows rows).
           (station_id r, last_reported r) \<in> (\<lambda>t. (station_id t, last_reported t)) ` set df)"
proof -
  let ?key = "\<lambda>r::status_row. (station_id r, last_reported r)"
  from query_station_status_Inr [OF assms(1)] assms(2)
  have eq: "map status_row.truncate df = drop_duplicates ?key (active_rows rows)"
    by auto
  have "distinct (map ?key (map status_row.truncate df))"
    unfolding eq by (rule distinct_drop_duplicates)
  then have d: "distinct (map (\<lambda>t. (station_id t, last_reported t)) df)"
    by (simp add: comp_def)
  have f: "\<forall>k. find (\<lambda>r. ?key r = k) (map status_row.truncate df)
            = find (\<lambda>r. ?key r = k) (active_rows rows)"
    unfolding eq by (simp add: find_drop_duplicates)
  have s: "subseq (map status_row.truncate df) (active_rows rows)"
    unfolding eq by (rule subseq_drop_duplicates)
  have "?key ` set (map status_row.truncate df) = ?key ` set (active_rows rows)"
    unfolding eq by (rule keys_drop_duplicates)
  then have k: "(\<lambda>t. (station_id t, last_reported t)) ` set df = ?key ` set (active_rows rows)"
    by (simp add: image_image)
  show ?thesis using d f s k by blast
qed

theorem drop_duplicates_per_id_and_timestamp_witness:
  "query_station_status (status_response duplicate_run)
     = Inr [with_time (sample_status ''A'' True True 100) 100,
            with_time (sample_status ''A'' True True 200) 200]
   \<and> load_stations (status_response duplicate_run)
     = Inr [sample_status ''A'' True True 100, sample_status ''A'' True True 200]
   \<and> distinct (map (\<lambda>t. (station_id t, last_reported t))
        [with_time (sample_status ''A'' True True 100) 100,
         with_time (sample_status ''A'' True True 200) 200])
   \<and> (''A'', Some 200) \<in> (\<lambda>t. (station_id t, last_reported t)) `
        set [with_time (sample_status ''A'' True True 100) 100,
             with_time (sample_status ''A'' True True 200) 200]"
proof -
  have h1: "query_station_status (status_response duplicate_run)
     = Inr [with_time (sample_status ''A'' True True 100) 100,
            with_time (sample_status ''A'' True True 200) 200]"
    by (simp add: pipeline_defs duplicate_run_def)
  have h2: "load_stations (status_response duplicate_run)
     = Inr [sample_status ''A'' True True 100, sample_status ''A'' True True 200]"
    by (simp add: pipeline_defs duplicate_run_def)
  have m: "sample_status ''A'' True True 200
      \<in> set (active_rows [sample_status ''A'' True True 100, sample_status ''A'' True True 200])"
    by (simp add: active_rows_def sample_status_def)
  have k: "(station_id (sample_status ''A'' True True 200),
            last_reported (sample_status ''A'' True True 200)) = (''A'', Some 200)"
    by (simp add: sample_status_def)
  note t = drop_duplicates_per_id_and_timestamp [OF h1 h2]
  from t have d: "distinct (map (\<lambda>t. (station_id t, last_reported t))
        [with_time (sample_status ''A'' True True 100) 100,
         with_time (sample_status ''A'' True True 200) 200])"
    by (rule conjunct1)
  from t have "\<forall>r\<in>set (active_rows
        [sample_status ''A'' True True 100, sample_status ''A'' True True 200]).
      (station_id r, last_reported r) \<in> (\<lambda>t. (station_id t, last_reported t)) `
        set [with_time (sample_status ''A'' True True 100) 100,
             with_time (sample_status ''A'' True True 200) 200]"
    by (elim conjE)
  from bspec [OF this m] have e: "(''A'', Some 200) \<in> (\<lambda>t. (station_id t, last_reported t)) `
        set [with_time (sample_status ''A'' True True 100) 100,
             with_time (sample_status ''A'' True True 200) 200]"
    by (simp only: k)
  from h1 h2 d e show ?thesis by (intro conjI)
qed

text \<open>
  C1 as stated fails: two records of station A with timestamps 100 and 200 both pass the
  deduplication, and the snapshot of the run holds two records for A.
\<close>

theorem latest_per_station_counterexample:
  "map_sum id (map (\<lambda>t. (station_id t, last_reported t)))
       (query_station_status (status_response duplicate_run))
     = Inr [(''A'', Some 100), (''A'', Some 200)]
   \<and> map (\<lambda>s. (station_id s, last_reported s))
        (stations (session (fst (run_session_code fresh_app duplicate_run))))
     = [(''A'', Some 100), (''A'', Some 200)]"
  by (simp add: pipeline_defs duplicate_run_def)

subsection \<open>Facts about the left merge\<close>

lemma merge_left_Nil [simp]: "merge_left [] right = []"
  by (simp add: merge_left_def)

lemma merge_left_Cons:
  "merge_left (l # left) right =
     (let partners = filter (\<lambda>r. station_id r = station_id l) right
      in if partners = [] then [(l, None)] else map (\<lambda>r. (l, Some r)) partners)
     @ merge_left left right"
  by (simp add: merge_left_def)

lemma fst_merge_left:
  "map fst (merge_left left right) =
     concat (map (\<lambda>l. replicate
        (max 1 (length (filter (\<lambda>r. station_id r = station_id l) right))) l) left)"
proof (induction left)
  case Nil
  show ?case by simp
next
  case (Cons l left)
  let ?ps = "filter (\<lambda>r. station_id r = station_id l) right"
  have "map fst (if ?ps = [] then [(l, None)] else map (\<lambda>r. (l, Some r)) ?ps)
          = replicate (max 1 (length ?ps)) l"
  proof (cases "?ps = []")
    case True
    then show ?thesis by simp
  next
    case False
    then have "max 1 (length ?ps) = length ?ps"
      by (cases ?ps) simp_all
    with False show ?thesis by (simp add: comp_def map_replicate_const)
  qed
  with Cons show ?case by (simp add: merge_left_Cons Let_def)
qed

lemma set_merge_left_head:
  "(l, p) \<in> set (let partners = filter (\<lambda>r. station_id r = station_id a) right
                  in if partners = [] then [(a, None)] else map (\<lambda>r. (a, Some r)) partners)
   \<longleftrightarrow> l = a \<and>
     (case p of
        None \<Rightarrow> \<forall>r\<in>set right. station_id r \<noteq> station_id a
      | Some r \<Rightarrow> r \<in> set right \<and> station_id r = station_id a)"
  by (cases p) (auto simp: Let_def filter_empty_conv)

lemma set_merge_left:
  "(l, p) \<in> set (merge_left left right) \<longleftrightarrow>
     l \<in> set left \<and>
     (case p of
        None \<Rightarrow> \<forall>r\<in>set right. station_id r \<noteq> station_id l
      | Some r \<Rightarrow> r \<in> set right \<and> station_id r = station_id l)"
proof (induction left)
  case Nil
  show ?case by simp
next
  case (Cons a left)
  have "(l, p) \<in> set (merge_left (a # left) right) \<longleftrightarrow>
        (l, p) \<in> set (let partners = filter (\<lambda>r. station_id r = station_id a) right
                  in if partners = [] then [(a, None)] else map (\<lambda>r. (a, Some r)) partners)
        \<or> (l, p) \<in> set (merge_left left right)"
    by (simp only: merge_left_Cons set_append Un_iff)
  then show ?case
    unfolding set_merge_left_head Cons.IH by auto
qed

lemma distinct_key_filter_le1:
  "distinct (map f xs) \<Longrightarrow> length (filter (\<lambda>x. f x = k) xs) \<le> 1"
proof (induction xs)
  case Nil
  show ?case by simp
next
  case (Cons x xs)
  show ?case
  proof (cases "f x = k")
    case True
    from Cons.prems have "f x \<notin> f ` set xs" by simp
    with True have "\<forall>y\<in>set xs. f y \<noteq> k" by (metis image_eqI)
    then have "filter (\<lambda>y. f y = k) xs = []"
      by (simp add: filter_empty_conv)
    with True show ?thesis by simp
  next
    case False
    with Cons show ?thesis by simp
  qed
qed

lemma fst_merge_left_distinct:
  fixes left :: "'a keyed_scheme list" and right :: "'b keyed_scheme list"
  assumes "distinct (map station_id right)"
  shows "map fst (merge_left left right) = left"
proof -
  have "max 1 (length (filter (\<lambda>r. station_id r = station_id l) right)) = 1"
    for l :: "'a keyed_scheme"
  proof -
    have "length (filter (\<lambda>r. station_id r = station_id l) right) \<le> 1"
      using assms by (rule distinct_key_filter_le1)
    then show ?thesis by linarith
  qed
  then show ?thesis by (simp add: fst_merge_left)
qed

lemma truncate_merged_row [simp]: "timed_row.truncate (merged_row (l, p)) = l"
  by (simp add: merged_row_def timed_row.truncate_def)

lemma truncate_merged_row_fst: "timed_row.truncate \<circ> merged_row = fst"
  by (rule ext) (simp add: merged_row_def timed_row.truncate_def split: prod.splits)

lemma station_id_merged_row [simp]: "station_id (merged_row (l, p)) = station_id l"
  by (simp add: merged_row_def)

subsection \<open>C3: the left join\<close>

lemma merged_row_None [simp]:
  "station.name (merged_row (l, None)) = None"
  "station.lat (merged_row (l, None)) = None"
  "station.lon (merged_row (l, None)) = None"
  "station.capacity (merged_row (l, None)) = None"
  "station.region_id (merged_row (l, None)) = None"
  by (simp_all add: merged_row_def)

lemma merged_row_Some [simp]:
  "station.name (merged_row (l, Some i)) = info_row.name i"
  "station.lat (merged_row (l, Some i)) = info_row.lat i"
  "station.lon (merged_row (l, Some i)) = info_row.lon i"
  "station.capacity (merged_row (l, Some i)) = info_row.capacity i"
  "station.region_id (merged_row (l, Some i)) = info_row.region_id i"
  by (simp_all add: merged_row_def)

lemma merge_stations_Inr:
  "merge_stations sdf idf = Inr sb \<Longrightarrow> idf \<noteq> [] \<and> sb = map merged_row (merge_left sdf idf)"
  by (auto simp: merge_stations_def split: if_splits)

lemma matched_partners:
  "concat (map (\<lambda>i. if station_id i = station_id l then [(l, Some i)] else []) right)
     = map (\<lambda>i. (l, Some i)) (filter (\<lambda>i. station_id i = station_id l) right)"
  by (induction right) simp_all

lemma matched_merge_left:
  "filter (\<lambda>p. snd p \<noteq> None) (merge_left left right)
     = [(l, Some i). l \<leftarrow> left, i \<leftarrow> right, station_id i = station_id l]"
proof (induction left)
  case Nil
  show ?case by simp
next
  case (Cons l left)
  let ?ps = "filter (\<lambda>i. station_id i = station_id l) right"
  have "filter (\<lambda>p. snd p \<noteq> None)
          (if ?ps = [] then [(l, None)] else map (\<lambda>r. (l, Some r)) ?ps)
        = map (\<lambda>i. (l, Some i)) ?ps"
    by (cases "?ps = []") (simp_all add: filter_map comp_def)
  with Cons show ?case
    by (simp add: merge_left_Cons Let_def matched_partners)
qed

lemma unmatched_merge_left:
  "filter (\<lambda>p. snd p = None) (merge_left left right)
     = [(l, None). l \<leftarrow> left, station_id l \<notin> station_id ` set right]"
proof (induction left)
  case Nil
  show ?case by simp
next
  case (Cons l left)
  let ?ps = "filter (\<lambda>i. station_id i = station_id l) right"
  have e: "?ps = [] \<longleftrightarrow> station_id l \<notin> station_id ` set right"
    by (auto simp: filter_empty_conv image_iff)
  have "filter (\<lambda>p. snd p = None)
          (if ?ps = [] then [(l, None)] else map (\<lambda>r. (l, Some r)) ?ps)
        = (if station_id l \<notin> station_id ` set right then [(l, None)] else [])"
    unfolding e [symmetric] by (cases "?ps = []") (simp_all add: filter_map comp_def)
  with Cons show ?case
    by (simp add: merge_left_Cons Let_def)
qed

lemma pair_in_merge_left:
  "l \<in> set left \<Longrightarrow> i \<in> set right \<Longrightarrow> station_id i = station_id l \<Longrightarrow>
     (l, Some i) \<in> set (merge_left left right)"
  by (simp add: set_merge_left)

lemma left_join_rows:
  assumes "merge_stations station_status_df station_info_df = Inr sb"
  shows
   "map timed_row.truncate sb =
      concat (map (\<lambda>l. replicate (max 1 (length
          (filter (\<lambda>i. station_id i = station_id l) station_info_df))) l) station_status_df)
    \<and> (distinct (map station_id station_info_df) \<longrightarrow>
          map timed_row.truncate sb = station_status_df)
    \<and> (\<forall>l\<in>set station_status_df. station_id l \<notin> station_id ` set station_info_df \<longrightarrow>
          merged_row (l, None) \<in> set sb)
    \<and> (\<forall>s\<in>set sb. station_id s \<notin> station_id ` set station_info_df \<longrightarrow>
          station.name s = None \<and> station.lat s = None \<and> station.lon s = None
          \<and> station.region_id s = None \<and> station.capacity s = None)
    \<and> (\<forall>s\<in>set sb. station_id s \<in> station_id ` set station_info_df \<longrightarrow>
          (\<exists>i\<in>set station_info_df. station_id i = station_id s
             \<and> station.name s = info_row.name i \<and> station.lat s = info_row.lat i
             \<and> station.lon s = info_row.lon i \<and> station.capacity s = info_row.capacity i
             \<and> station.region_id s = info_row.region_id i))
    \<and> (\<forall>j. join_latlon station_status_df station_info_df = Inr j \<longrightarrow>
          (distinct (map station_id station_info_df) \<longrightarrow> map fst j = station_status_df)
          \<and> (\<forall>l\<in>set station_status_df. station_id l \<notin> station_id ` set station_info_df \<longrightarrow>
                (l, None) \<in> set j))"
proof -
  from merge_stations_Inr [OF assms]
  have sb: "sb = map merged_row (merge_left station_status_df station_info_df)" by simp
  have tr: "map timed_row.truncate sb = map fst (merge_left station_status_df station_info_df)"
    by (simp add: sb truncate_merged_row_fst)
  have c1: "map timed_row.truncate sb =
      concat (map (\<lambda>l. replicate (max 1 (length
          (filter (\<lambda>i. station_id i = station_id l) station_info_df))) l) station_status_df)"
    by (simp only: tr fst_merge_left)
  have c2: "distinct (map station_id station_info_df) \<longrightarrow>
          map timed_row.truncate sb = station_status_df"
    by (simp add: tr fst_merge_left_distinct)
  have c3: "\<forall>l\<in>set station_status_df. station_id l \<notin> station_id ` set station_info_df \<longrightarrow>
          merged_row (l, None) \<in> set sb"
  proof (intro ballI impI)
    fix l assume "l \<in> set station_status_df"
      and "station_id l \<notin> station_id ` set station_info_df"
    then have "(l, None) \<in> set (merge_left station_status_df station_info_df)"
      by (auto simp: set_merge_left image_iff)
    then show "merged_row (l, None) \<in> set sb" by (simp add: sb)
  qed
  have c4: "\<forall>s\<in>set sb. station_id s \<notin> station_id ` set station_info_df \<longrightarrow>
          station.name s = None \<and> station.lat s = None \<and> station.lon s = None
          \<and> station.region_id s = None \<and> station.capacity s = None"
  proof (intro ballI impI)
    fix s assume "s \<in> set sb" and n: "station_id s \<notin> station_id ` set station_info_df"
    then obtain l p where lp: "(l, p) \<in> set (merge_left station_status_df station_info_df)"
      and s: "s = merged_row (l, p)"
      by (auto simp: sb)
    from lp n s have "p = None"
      by (cases p) (auto simp: set_merge_left image_iff)
    with s show "station.name s = None \<and> station.lat s = None \<and> station.lon s = None
          \<and> station.region_id s = None \<and> station.capacity s = None"
      by simp
  qed
  have c5: "\<forall>s\<in>set sb. station_id s \<in> station_id ` set station_info_df \<longrightarrow>
          (\<exists>i\<in>set station_info_df. station_id i = station_id s
             \<and> station.name s = info_row.name i \<and> station.lat s = info_row.lat i
             \<and> station.lon s = info_row.lon i \<and> station.capacity s = info_row.capacity i
             \<and> station.region_id s = info_row.region_id i)"
  proof (intro ballI impI)
    fix s assume "s \<in> set sb" and n: "station_id s \<in> station_id ` set station_info_df"
    then obtain l p where lp: "(l, p) \<in> set (merge_left station_status_df station_info_df)"
      and s: "s = merged_row (l, p)"
      by (auto simp: sb)
    from lp n s obtain i where "p = Some i" "i \<in> set station_info_df"
      "station_id i = station_id l"
      by (cases p) (auto simp: set_merge_left image_iff)
    with s show "\<exists>i\<in>set station_info_df. station_id i = station_id s
             \<and> station.name s = info_row.name i \<and> station.lat s = info_row.lat i
             \<and> station.lon s = info_row.lon i \<and> station.capacity s = info_row.capacity i
             \<and> station.region_id s = info_row.region_id i"
      by auto
  qed
  have c6: "\<forall>j. join_latlon station_status_df station_info_df = Inr j \<longrightarrow>
          (distinct (map station_id station_info_df) \<longrightarrow> map fst j = station_status_df)
          \<and> (\<forall>l\<in>set station_status_df. station_id l \<notin> station_id ` set station_info_df \<longrightarrow>
                (l, None) \<in> set j)"
  proof (intro allI impI)
    fix j assume "join_latlon station_status_df station_info_df = Inr j"
    then have j: "j = merge_left station_status_df (map select_latlon station_info_df)"
      by (auto simp: join_latlon_def split: if_splits)
    have ids: "map station_id (map select_latlon station_info_df) = map station_id station_info_df"
      by (simp add: select_latlon_def)
    have a: "distinct (map station_id station_info_df) \<longrightarrow> map fst j = station_status_df"
      using fst_merge_left_distinct [of "map select_latlon station_info_df" station_status_df]
      by (simp only: j ids) simp
    have b: "\<forall>l\<in>set station_status_df. station_id l \<notin> station_id ` set station_info_df \<longrightarrow>
                (l, None) \<in> set j"
      by (auto simp: j set_merge_left select_latlon_def image_iff)
    from a b show "(distinct (map station_id station_info_df) \<longrightarrow> map fst j = station_status_df)
          \<and> (\<forall>l\<in>set station_status_df. station_id l \<notin> station_id ` set station_info_df \<longrightarrow>
                (l, None) \<in> set j)" by (rule conjI)
  qed
  from c1 c2 c3 c4 c5 c6 show ?thesis by (intro conjI)
qed

text \<open>
  C3 (amended). Reconciliation is a left outer join of the status frame with the
  information frame on station_id. The output holds, in the order of the status frame, one
  row for every pair of a status record and an information record with the same
  station_id, these in the order of the information frame, and one row with null name,
  lat, lon, capacity and region_id for every status record that has no such information
  record: it is not dropped. Every row keeps the status columns of its status record and,
  when it has a partner, carries the information columns of that partner. When the
  station_ids of the information records are pairwise distinct, the output has exactly one
  row per status record, in the same order. The same holds for \<open>join_latlon\<close>.
\<close>

theorem left_join_on_station_id:
  assumes "merge_stations station_status_df station_info_df = Inr sb"
  shows
   "(\<exists>pairs. sb = map merged_row pairs
       \<and> map fst pairs =
           concat (map (\<lambda>l. replicate (max 1 (length
             (filter (\<lambda>i. station_id i = station_id l) station_info_df))) l) station_status_df)
       \<and> filter (\<lambda>p. snd p \<noteq> None) pairs =
           [(l, Some i). l \<leftarrow> station_status_df, i \<leftarrow> station_info_df,
              station_id i = station_id l]
       \<and> filter (\<lambda>p. snd p = None) pairs =
           [(l, None). l \<leftarrow> station_status_df,
              station_id l \<notin> station_id ` set station_info_df])
    \<and> (\<forall>l p. timed_row.truncate (merged_row (l, p)) = l)
    \<and> (\<forall>l i. station.name (merged_row (l, Some i)) = info_row.name i
          \<and> station.lat (merged_row (l, Some i)) = info_row.lat i
          \<and> station.lon (merged_row (l, Some i)) = info_row.lon i
          \<and> station.capacity (merged_row (l, Some i)) = info_row.capacity i
          \<and> station.region_id (merged_row (l, Some i)) = info_row.region_id i)
    \<and> (\<forall>l. station.name (merged_row (l, None)) = None
          \<and> station.lat (merged_row (l, None)) = None
          \<and> station.lon (merged_row (l, None)) = None
          \<and> station.capacity (merged_row (l, None)) = None
          \<and> station.region_id (merged_row (l, None)) = None)
    \<and> (\<forall>l\<in>set station_status_df. \<forall>i\<in>set station_info_df.
          station_id i = station_id l \<longrightarrow> merged_row (l, Some i) \<in> set sb)
    \<and> (\<forall>j. join_latlon station_status_df station_info_df = Inr j \<longrightarrow>
          map fst j =
            concat (map (\<lambda>l. replicate (max 1 (length
              (filter (\<lambda>i. station_id i = station_id l) station_info_df))) l)
              station_status_df)
          \<and> filter (\<lambda>p. snd p \<noteq> None) j =
            [(l, Some (select_latlon i)). l \<leftarrow> station_status_df, i \<leftarrow> station_info_df,
               station_id i = station_id l]
          \<and> filter (\<lambda>p. snd p = None) j =
            [(l, None). l \<leftarrow> station_status_df,
               station_id l \<notin> station_id ` set station_info_df])
    \<and> (map timed_row.truncate sb =
      concat (map (\<lambda>l. replicate (max 1 (length
          (filter (\<lambda>i. station_id i = station_id l) station_info_df))) l) station_status_df)
    \<and> (distinct (map station_id station_info_df) \<longrightarrow>
          map timed_row.truncate sb = station_status_df)
    \<and> (\<forall>l\<in>set station_status_df. station_id l \<notin> station_id ` set station_info_df \<longrightarrow>
          merged_row (l, None) \<in> set sb)
    \<and> (\<forall>s\<in>set sb. station_id s \<notin> station_id ` set station_info_df \<longrightarrow>
          station.name s = None \<and> station.lat s = None \<and> station.lon s = None
          \<and> station.region_id s = None \<and> station.capacity s = None)
    \<and> (\<forall>s\<in>set sb. station_id s \<in> station_id ` set station_info_df \<longrightarrow>
          (\<exists>i\<in>set station_info_df. station_id i = station_id s
             \<and> station.name s = info_row.name i \<and> station.lat s = info_row.lat i
             \<and> station.lon s = info_row.lon i \<and> station.capacity s = info_row.capacity i
             \<and> station.region_id s = info_row.region_id i))
    \<and> (\<forall>j. join_latlon station_status_df station_info_df = Inr j \<longrightarrow>
          (distinct (map station_id station_info_df) \<longrightarrow> map fst j = station_status_df)
          \<and> (\<forall>l\<in>set station_status_df. station_id l \<notin> station_id ` set station_info_df \<longrightarrow>
                (l, None) \<in> set j)))"
proof -
  from merge_stations_Inr [OF assms]
  have sb: "sb = map merged_row (merge_left station_status_df station_info_df)" by simp
  have a: "\<exists>pairs. sb = map merged_row pairs
       \<and> map fst pairs =
           concat (map (\<lambda>l. replicate (max 1 (length
             (filter (\<lambda>i. station_id i = station_id l) station_info_df))) l) station_status_df)
       \<and> filter (\<lambda>p. snd p \<noteq> None) pairs =
           [(l, Some i). l \<leftarrow> station_status_df, i \<leftarrow> station_info_df,
              station_id i = station_id l]
       \<and> filter (\<lambda>p. snd p = None) pairs =
           [(l, None). l \<leftarrow> station_status_df,
              station_id l \<notin> station_id ` set station_info_df]"
    using sb fst_merge_left [of station_status_df station_info_df]
      matched_merge_left [of station_status_df station_info_df]
      unmatched_merge_left [of station_status_df station_info_df]
    by (intro exI [of _ "merge_left station_status_df station_info_df"] conjI)
  have b: "\<forall>l p. timed_row.truncate (merged_row (l, p)) = l" by simp
  have c: "\<forall>l i. station.name (merged_row (l, Some i)) = info_row.name i
          \<and> station.lat (merged_row (l, Some i)) = info_row.lat i
          \<and> station.lon (merged_row (l, Some i)) = info_row.lon i
          \<and> station.capacity (merged_row (l, Some i)) = info_row.capacity i
          \<and> station.region_id (merged_row (l, Some i)) = info_row.region_id i"
    by simp
  have d: "\<forall>l. station.name (merged_row (l, None)) = None
          \<and> station.lat (merged_row (l, None)) = None
          \<and> station.lon (merged_row (l, None)) = None
          \<and> station.capacity (merged_row (l, None)) = None
          \<and> station.region_id (merged_row (l, None)) = None"
    by simp
  have e: "\<forall>l\<in>set station_status_df. \<forall>i\<in>set station_info_df.
          station_id i = station_id l \<longrightarrow> merged_row (l, Some i) \<in> set sb"
  proof (intro ballI impI)
    fix l i assume "l \<in> set station_status_df" "i \<in> set station_info_df"
      "station_id i = station_id l"
    then have "(l, Some i) \<in> set (merge_left station_status_df station_info_df)"
      by (rule pair_in_merge_left)
    then show "merged_row (l, Some i) \<in> set sb" by (simp add: sb)
  qed
  have f: "\<forall>j. join_latlon station_status_df station_info_df = Inr j \<longrightarrow>
          map fst j =
            concat (map (\<lambda>l. replicate (max 1 (length
              (filter (\<lambda>i. station_id i = station_id l) station_info_df))) l)
              station_status_df)
          \<and> filter (\<lambda>p. snd p \<noteq> None) j =
            [(l, Some (select_latlon i)). l \<leftarrow> station_status_df, i \<leftarrow> station_info_df,
               station_id i = station_id l]
          \<and> filter (\<lambda>p. snd p = None) j =
            [(l, None). l \<leftarrow> station_status_df,
               station_id l \<notin> station_id ` set station_info_df]"
  proof (intro allI impI)
    fix j assume "join_latlon station_status_df station_info_df = Inr j"
    then have j: "j = merge_left station_status_df (map select_latlon station_info_df)"
      by (auto simp: join_latlon_def split: if_splits)
    have id: "station_id (select_latlon i) = station_id i" for i
      by (simp add: select_latlon_def)
    have f1: "map fst j =
            concat (map (\<lambda>l. replicate (max 1 (length
              (filter (\<lambda>i. station_id i = station_id l) station_info_df))) l)
              station_status_df)"
      by (simp add: j fst_merge_left filter_map comp_def id)
    have f2: "filter (\<lambda>p. snd p \<noteq> None) j =
            [(l, Some (select_latlon i)). l \<leftarrow> station_status_df, i \<leftarrow> station_info_df,
               station_id i = station_id l]"
    proof -
      have "filter (\<lambda>p. snd p \<noteq> None) j =
          [(l, Some i'). l \<leftarrow> station_status_df, i' \<leftarrow> map select_latlon station_info_df,
             station_id i' = station_id l]"
        unfolding j by (rule matched_merge_left)
      also have "\<dots> =
          [(l, Some (select_latlon i)). l \<leftarrow> station_status_df, i \<leftarrow> station_info_df,
             station_id i = station_id l]"
        by (simp add: o_def id)
      finally show ?thesis .
    qed
    have f3: "filter (\<lambda>p. snd p = None) j =
            [(l, None). l \<leftarrow> station_status_df,
               station_id l \<notin> station_id ` set station_info_df]"
      by (simp add: j unmatched_merge_left id image_image)
    from f1 f2 f3 show "map fst j =
            concat (map (\<lambda>l. replicate (max 1 (length
              (filter (\<lambda>i. station_id i = station_id l) station_info_df))) l)
              station_status_df)
          \<and> filter (\<lambda>p. snd p \<noteq> None) j =
            [(l, Some (select_latlon i)). l \<leftarrow> station_status_df, i \<leftarrow> station_info_df,
               station_id i = station_id l]
          \<and> filter (\<lambda>p. snd p = None) j =
            [(l, None). l \<leftarrow> station_status_df,
               station_id l \<notin> station_id ` set station_info_df]"
      by (intro conjI)
  qed
  show ?thesis
    by (rule conjI [OF a conjI [OF b conjI [OF c conjI [OF d conjI [OF e conjI
      [OF f left_join_rows [OF assms]]]]]]])
qed


theorem left_join_on_station_id_witness:
  "merge_stations [sample_timed ''A'' 100, sample_timed ''C'' 300]
      [sample_info ''C'' ''Ueno'' 4, sample_info ''C'' ''Ueno Park'' 6]
     = Inr [merged_row (sample_timed ''A'' 100, None),
            merged_row (sample_timed ''C'' 300, Some (sample_info ''C'' ''Ueno'' 4)),
            merged_row (sample_timed ''C'' 300, Some (sample_info ''C'' ''Ueno Park'' 6))]
   \<and> merged_row (sample_timed ''C'' 300, Some (sample_info ''C'' ''Ueno Park'' 6))
       \<in> set [merged_row (sample_timed ''A'' 100, None),
            merged_row (sample_timed ''C'' 300, Some (sample_info ''C'' ''Ueno'' 4)),
            merged_row (sample_timed ''C'' 300, Some (sample_info ''C'' ''Ueno Park'' 6))]
   \<and> merged_row (sample_timed ''A'' 100, None)
       \<in> set [merged_row (sample_timed ''A'' 100, None),
            merged_row (sample_timed ''C'' 300, Some (sample_info ''C'' ''Ueno'' 4)),
            merged_row (sample_timed ''C'' 300, Some (sample_info ''C'' ''Ueno Park'' 6))]
   \<and> merge_stations [sample_timed ''A'' 100, sample_timed ''C'' 300]
      [sample_info ''C'' ''Ueno'' 4]
     = Inr [merged_row (sample_timed ''A'' 100, None),
            merged_row (sample_timed ''C'' 300, Some (sample_info ''C'' ''Ueno'' 4))]
   \<and> map timed_row.truncate
        [merged_row (sample_timed ''A'' 100, None),
         merged_row (sample_timed ''C'' 300, Some (sample_info ''C'' ''Ueno'' 4))]
     = [sample_timed ''A'' 100, sample_timed ''C'' 300]"
proof -
  let ?S = "[sample_timed ''A'' 100, sample_timed ''C'' 300]"
  let ?I = "[sample_info ''C'' ''Ueno'' 4, sample_info ''C'' ''Ueno Park'' 6]"
  let ?sb = "[merged_row (sample_timed ''A'' 100, None),
            merged_row (sample_timed ''C'' 300, Some (sample_info ''C'' ''Ueno'' 4)),
            merged_row (sample_timed ''C'' 300, Some (sample_info ''C'' ''Ueno Park'' 6))]"
  let ?I' = "[sample_info ''C'' ''Ueno'' 4]"
  let ?sb' = "[merged_row (sample_timed ''A'' 100, None),
            merged_row (sample_timed ''C'' 300, Some (sample_info ''C'' ''Ueno'' 4))]"
  have h: "merge_stations ?S ?I = Inr ?sb"
    by (simp add: merge_stations_def merge_left_def sample_timed_def sample_info_def
        sample_status_def)
  have h': "merge_stations ?S ?I' = Inr ?sb'"
    by (simp add: merge_stations_def merge_left_def sample_timed_def sample_info_def
        sample_status_def)
  note t = left_join_on_station_id [OF h]
  note t' = left_join_on_station_id [OF h']
  note pairs = t [THEN conjunct2, THEN conjunct2, THEN conjunct2, THEN conjunct2,
      THEN conjunct1]
  note kept = t [THEN conjunct2, THEN conjunct2, THEN conjunct2, THEN conjunct2,
      THEN conjunct2, THEN conjunct2, THEN conjunct2, THEN conjunct2, THEN conjunct1]
  note same = t' [THEN conjunct2, THEN conjunct2, THEN conjunct2, THEN conjunct2,
      THEN conjunct2, THEN conjunct2, THEN conjunct2, THEN conjunct1]
  have lC: "sample_timed ''C'' 300 \<in> set ?S" by simp
  have lA: "sample_timed ''A'' 100 \<in> set ?S" by simp
  have iC: "sample_info ''C'' ''Ueno Park'' 6 \<in> set ?I" by simp
  have idC: "station_id (sample_info ''C'' ''Ueno Park'' 6) = station_id (sample_timed ''C'' 300)"
    by (simp add: sample_timed_def sample_info_def sample_status_def)
  have nA: "station_id (sample_timed ''A'' 100) \<notin> station_id ` set ?I"
    by (simp add: sample_timed_def sample_info_def sample_status_def)
  have d: "distinct (map station_id ?I')" by simp
  have a: "merged_row (sample_timed ''C'' 300, Some (sample_info ''C'' ''Ueno Park'' 6))
      \<in> set ?sb"
    by (rule mp [OF bspec [OF bspec [OF pairs lC] iC] idC])
  have b: "merged_row (sample_timed ''A'' 100, None) \<in> set ?sb"
    by (rule mp [OF bspec [OF kept lA] nA])
  have c: "map timed_row.truncate ?sb' = ?S"
    by (rule mp [OF same d])
  show ?thesis
    by (rule conjI [OF h conjI [OF a conjI [OF b conjI [OF h' c]]]])
qed

text \<open>
  C3 as stated fails for an information feed that lists a station_id twice: one status
  record of station A yields two rows.
\<close>

theorem one_row_per_status_record_counterexample:
  "map_sum id (map (\<lambda>s. (station_id s, station.name s)))
     (merge_stations [sample_timed ''A'' 100]
        [sample_info ''A'' ''Shibuya'' 10, sample_info ''A'' ''Shibuya East'' 12])
   = Inr [(''A'', Some ''Shibuya''), (''A'', Some ''Shibuya East'')]"
  by (simp add: merge_stations_def merge_left_def sample_timed_def sample_info_def
      sample_status_def)

subsection \<open>Facts about the generator loop\<close>

lemma generate_shape:
  "generate d k sb acc = (xs, err) \<Longrightarrow>
     \<exists>ys. xs = acc @ ys \<and> length ys \<le> length sb
       \<and> (\<forall>i<length ys. assign_availability (sb ! i) (d (k + i)) = Inr (ys ! i))
       \<and> (err = None \<longrightarrow> length ys = length sb)
       \<and> (\<forall>e. err = Some e \<longrightarrow> length ys < length sb
             \<and> assign_availability (sb ! length ys) (d (k + length ys)) = Inl e)"
proof (induction sb arbitrary: k acc)
  case Nil
  then show ?case by simp
next
  case (Cons s rest)
  show ?case
  proof (cases "assign_availability s (d k)")
    case (Inl e)
    with Cons.prems have "xs = acc" "err = Some e" by simp_all
    with Inl show ?thesis by simp
  next
    case (Inr r)
    with Cons.prems have "generate d (Suc k) rest (acc @ [r]) = (xs, err)" by simp
    from Cons.IH [OF this] obtain ys where ys: "xs = (acc @ [r]) @ ys"
      "length ys \<le> length rest"
      "\<forall>i<length ys. assign_availability (rest ! i) (d (Suc k + i)) = Inr (ys ! i)"
      "err = None \<longrightarrow> length ys = length rest"
      "\<forall>e. err = Some e \<longrightarrow> length ys < length rest
             \<and> assign_availability (rest ! length ys) (d (Suc k + length ys)) = Inl e"
      by blast
    have "\<forall>i<length (r # ys). assign_availability ((s # rest) ! i) (d (k + i)) = Inr ((r # ys) ! i)"
    proof (intro allI impI)
      fix i assume "i < length (r # ys)"
      then show "assign_availability ((s # rest) ! i) (d (k + i)) = Inr ((r # ys) ! i)"
        using Inr ys(3) by (cases i) simp_all
    qed
    moreover have "xs = acc @ (r # ys)" using ys(1) by simp
    moreover have "length (r # ys) \<le> length (s # rest)" using ys(2) by simp
    moreover have "err = None \<longrightarrow> length (r # ys) = length (s # rest)" using ys(4) by simp
    moreover have "\<forall>e. err = Some e \<longrightarrow> length (r # ys) < length (s # rest)
             \<and> assign_availability ((s # rest) ! length (r # ys)) (d (k + length (r # ys))) = Inl e"
      using ys(5) by simp
    ultimately show ?thesis by blast
  qed
qed

text \<open>What the generator leaves as it is: every column but the three flags.\<close>

lemma assign_availability_frame:
  assumes "assign_availability s raw = Inr r"
  shows "station_id r = station_id s" "last_reported r = last_reported s"
    "time r = time s" "station.name r = station.name s" "station.lat r = station.lat s"
    "station.lon r = station.lon s" "station.capacity r = station.capacity s"
    "station.region_id r = station.region_id s"
    "num_bikes_available r = num_bikes_available s"
    "num_docks_available r = num_docks_available s"
    "is_renting r = Some True" "is_returning r = Some True" "is_installed r = Some True"
  using assms
  by (auto simp: assign_availability_def split: sum.splits option.splits)

subsection \<open>Where the rows of a snapshot come from\<close>

lemma set_active_rows:
  "set (active_rows rows)
     = {r \<in> set rows. is_renting r = Some True \<and> is_returning r = Some True}"
  by (auto simp: active_rows_def)

lemma query_station_status_active:
  assumes "query_station_status resp = Inr df" and "load_stations resp = Inr rows"
  shows "\<forall>t\<in>set df. status_row.truncate t \<in> set rows
           \<and> is_renting t = Some True \<and> is_returning t = Some True"
proof
  fix t assume t: "t \<in> set df"
  from query_station_status_Inr [OF assms(1)] assms(2)
  have eq: "map status_row.truncate df
      = drop_duplicates (\<lambda>r. (station_id r, last_reported r)) (active_rows rows)"
    by auto
  from t have "status_row.truncate t \<in> set (map status_row.truncate df)" by simp
  then have "status_row.truncate t
      \<in> set (drop_duplicates (\<lambda>r. (station_id r, last_reported r)) (active_rows rows))"
    by (simp only: eq)
  then have "status_row.truncate t \<in> set (active_rows rows)"
    by (rule subsetD [OF set_drop_duplicates])
  then have "status_row.truncate t \<in> set rows
      \<and> is_renting (status_row.truncate t) = Some True
      \<and> is_returning (status_row.truncate t) = Some True"
    by (simp add: set_active_rows)
  then show "status_row.truncate t \<in> set rows
           \<and> is_renting t = Some True \<and> is_returning t = Some True"
    by simp
qed

lemma query_station_status_active_in:
  assumes "query_station_status resp = Inr df" and "load_stations resp = Inr rows"
  shows "\<forall>t\<in>set df. active_in rows t"
proof
  fix t assume "t \<in> set df"
  with query_station_status_active [OF assms]
  have "status_row.truncate t \<in> set rows \<and> is_renting t = Some True
      \<and> is_returning t = Some True" by blast
  then show "active_in rows t"
    unfolding active_in_def
    by (intro bexI [of _ "status_row.truncate t"]) simp_all
qed

lemma generate_sources:
  assumes "generate d k sb acc = (xs, err)"
  shows "\<forall>r\<in>set xs. r \<in> set acc \<or> (\<exists>s\<in>set sb. \<exists>raw. assign_availability s raw = Inr r)"
proof
  fix r assume r: "r \<in> set xs"
  from generate_shape [OF assms] obtain ys where ys: "xs = acc @ ys"
    "length ys \<le> length sb"
    "\<forall>i<length ys. assign_availability (sb ! i) (d (k + i)) = Inr (ys ! i)"
    by blast
  show "r \<in> set acc \<or> (\<exists>s\<in>set sb. \<exists>raw. assign_availability s raw = Inr r)"
  proof (cases "r \<in> set acc")
    case True
    then show ?thesis by simp
  next
    case False
    with r ys(1) have "r \<in> set ys" by simp
    then obtain i where i: "i < length ys" "ys ! i = r" by (auto simp: in_set_conv_nth)
    with ys(2,3) have "sb ! i \<in> set sb" "assign_availability (sb ! i) (d (k + i)) = Inr r"
      by auto
    then show ?thesis by blast
  qed
qed

lemma active_in_assign:
  assumes "assign_availability s raw = Inr r" and "active_in rows s"
  shows "active_in rows r"
  using assms(2)
  unfolding active_in_def assign_availability_frame(1,2) [OF assms(1)] .

lemma active_in_generate:
  assumes "generate d k sb [] = (xs, err)" and "\<forall>s\<in>set sb. active_in rows s"
  shows "\<forall>r\<in>set xs. active_in rows r"
proof
  fix r assume "r \<in> set xs"
  with generate_sources [OF assms(1)] obtain s raw
    where "s \<in> set sb" "assign_availability s raw = Inr r"
    by auto
  with assms(2) show "active_in rows r" using active_in_assign by blast
qed

lemma last_reported_merged_row [simp]: "last_reported (merged_row (l, p)) = last_reported l"
  by (simp add: merged_row_def)

lemma active_in_merge:
  assumes "merge_stations sdf idf = Inr sb" and "\<forall>t\<in>set sdf. active_in rows t"
  shows "\<forall>s\<in>set sb. active_in rows s"
proof
  fix s assume "s \<in> set sb"
  with merge_stations_Inr [OF assms(1)] obtain l p
    where lp: "(l, p) \<in> set (merge_left sdf idf)" and s: "s = merged_row (l, p)"
    by auto
  from lp have "l \<in> set sdf" by (simp add: set_merge_left)
  with assms(2) have "active_in rows l" by blast
  then show "active_in rows s"
    unfolding active_in_def s station_id_merged_row last_reported_merged_row .
qed

lemma load_stations_query_error:
  "load_stations resp = Inl e \<Longrightarrow> query_station_status resp = Inl e"
  by (simp add: query_station_status_def)

lemma cached_query_traces:
  assumes c: "\<forall>t\<in>set (case cache of None \<Rightarrow> [] | Some df \<Rightarrow> df). active_in rows t"
    and f: "cache = None \<longrightarrow>
              load_stations resp = Inr rows \<or> (\<exists>e. load_stations resp = Inl e)"
    and r: "cached_query_station_status cache resp = (res, cache')"
  shows "(\<forall>t\<in>set (case cache' of None \<Rightarrow> [] | Some df \<Rightarrow> df). active_in rows t)
       \<and> (\<forall>df. res = Inr df \<longrightarrow> (\<forall>t\<in>set df. active_in rows t))"
proof (cases cache)
  case (Some df)
  with r have "res = Inr df" "cache' = Some df"
    by (simp_all add: cached_query_station_status_def)
  with c Some show ?thesis by simp
next
  case None
  show ?thesis
  proof (cases "query_station_status resp")
    case (Inl e)
    with r None have "res = Inl e" "cache' = None"
      by (simp_all add: cached_query_station_status_def)
    then show ?thesis by simp
  next
    case (Inr df)
    with r None have rc: "res = Inr df" "cache' = Some df"
      by (simp_all add: cached_query_station_status_def)
    from f None Inr have "load_stations resp = Inr rows"
      using load_stations_query_error by fastforce
    with Inr have "\<forall>t\<in>set df. active_in rows t"
      by (rule query_station_status_active_in)
    with rc show ?thesis by simp
  qed
qed

lemma fetch_stations_base_traces:
  assumes c: "\<forall>t\<in>set (case cache of None \<Rightarrow> [] | Some df \<Rightarrow> df). active_in rows t"
    and f: "cache = None \<longrightarrow>
              load_stations (status_response inp) = Inr rows
              \<or> (\<exists>e. load_stations (status_response inp) = Inl e)"
    and r: "fetch_stations_base cache inp = (res, cache')"
  shows "(\<forall>t\<in>set (case cache' of None \<Rightarrow> [] | Some df \<Rightarrow> df). active_in rows t)
       \<and> (\<forall>sb. res = Inr sb \<longrightarrow> (\<forall>s\<in>set sb. active_in rows s))"
proof (cases "cached_query_station_status cache (status_response inp)")
  case (Pair q cache'')
  note t = cached_query_traces [OF c f Pair]
  show ?thesis
  proof (cases q)
    case (Inl e)
    with r Pair have "res = Inl e" "cache' = cache''"
      by (simp_all add: fetch_stations_base_def)
    with t show ?thesis by simp
  next
    case (Inr sdf)
    with t have a: "\<forall>t\<in>set sdf. active_in rows t" by simp
    show ?thesis
    proof (cases "get_station_latlon (info_response inp)")
      case (Inl e)
      with r Pair Inr have "res = Inl e" "cache' = cache''"
        by (simp_all add: fetch_stations_base_def)
      with t show ?thesis by simp
    next
      case idf: (Inr idf)
      with r Pair Inr have rc: "res = merge_stations sdf idf" "cache' = cache''"
        by (simp_all add: fetch_stations_base_def)
      have "\<forall>sb. res = Inr sb \<longrightarrow> (\<forall>s\<in>set sb. active_in rows s)"
        using active_in_merge [OF _ a] rc(1) by simp
      with t rc(2) show ?thesis by simp
    qed
  qed
qed

lemma session_step_traces:
  assumes s: "\<forall>x\<in>set (stations ss). active_in rows x"
    and b: "\<forall>x\<in>set sb. active_in rows x"
  shows "\<forall>x\<in>set (stations (fst (session_step ss sb inp))). active_in rows x"
proof -
  have g: "\<forall>x\<in>set (fst (generate d 0 sb [])). active_in rows x" for d
    using active_in_generate [OF _ b, of d 0] by (metis prod.collapse)
  have i: "\<forall>x\<in>set (stations (fst (initialize_session ss sb (now inp) (draws inp)))).
      active_in rows x"
    using s g [of "draws inp"] by (simp add: initialize_session_def split: prod.splits)
  have r: "\<forall>x\<in>set (stations (fst (refresh_data ss' sb (now inp) d))).
      active_in rows x" for ss' d
    using g [of d] by (simp add: refresh_data_def split: prod.splits)
  show ?thesis
  proof (cases "initialize_session ss sb (now inp) (draws inp)")
    case (Pair ss' err)
    show ?thesis
    proof (cases "err = None \<and> refresh_pressed inp")
      case True
      with Pair r [of ss'] show ?thesis by (simp add: session_step_def)
    next
      case False
      with Pair i show ?thesis by (auto simp: session_step_def split: option.splits)
    qed
  qed
qed

lemma run_session_code_traces:
  assumes t: "traces_to rows a"
    and f: "status_cache a = None \<longrightarrow>
              load_stations (status_response inp) = Inr rows
              \<or> (\<exists>e. load_stations (status_response inp) = Inl e)"
  shows "traces_to rows (fst (run_session_code a inp))"
proof (cases "fetch_stations_base (status_cache a) inp")
  case (Pair res cache')
  from t have c: "\<forall>t\<in>set (case status_cache a of None \<Rightarrow> [] | Some df \<Rightarrow> df). active_in rows t"
    and s: "\<forall>x\<in>set (stations (session a)). active_in rows x"
    by (simp_all add: traces_to_def)
  note u = fetch_stations_base_traces [OF c f Pair]
  show ?thesis
  proof (cases res)
    case (Inl e)
    with Pair u s show ?thesis by (simp add: run_session_code_def traces_to_def)
  next
    case (Inr sb)
    with u have b: "\<forall>x\<in>set sb. active_in rows x" by simp
    from session_step_traces [OF s b, of inp] Pair Inr u show ?thesis
      by (simp add: run_session_code_def traces_to_def split: prod.splits)
  qed
qed

subsection \<open>C10: stations that are not renting or not returning\<close>

lemma traces_to_fresh: "traces_to rows fresh_app"
  by (simp add: traces_to_def fresh_app_def fresh_session_def)

text \<open>
  C10. \<open>query_station_status\<close> discards every status record whose is_renting or
  is_returning flag is not True, before deduplication and merge: every row it returns is
  a record of the feed with both flags True. Hence everything the application holds stems
  from such records: the property holds for the fresh application and every run of the
  script preserves it, as long as the status feed, when it is fetched at all, answers with
  the records \<open>rows\<close> or fails. The generator sets the three flags of every record it
  produces to True.
\<close>

theorem inactive_stations_excluded:
  "(query_station_status resp = Inr df \<and> load_stations resp = Inr rows \<longrightarrow>
      (\<forall>t\<in>set df. status_row.truncate t \<in> set rows
          \<and> is_renting t = Some True \<and> is_returning t = Some True)
      \<and> (\<forall>r\<in>set rows. is_renting r \<noteq> Some True \<or> is_returning r \<noteq> Some True \<longrightarrow>
            r \<notin> status_row.truncate ` set df))
   \<and> traces_to rows fresh_app
   \<and> (traces_to rows a
        \<and> (status_cache a = None \<longrightarrow>
              load_stations (status_response inp) = Inr rows
              \<or> (\<exists>e. load_stations (status_response inp) = Inl e))
       \<longrightarrow> traces_to rows (fst (run_session_code a inp)))
   \<and> (case assign_availability s raw of
         Inl e \<Rightarrow> True
       | Inr r \<Rightarrow> is_renting r = Some True \<and> is_returning r = Some True
                  \<and> is_installed r = Some True)"
proof -
  have c1: "query_station_status resp = Inr df \<and> load_stations resp = Inr rows \<longrightarrow>
      (\<forall>t\<in>set df. status_row.truncate t \<in> set rows
          \<and> is_renting t = Some True \<and> is_returning t = Some True)
      \<and> (\<forall>r\<in>set rows. is_renting r \<noteq> Some True \<or> is_returning r \<noteq> Some True \<longrightarrow>
            r \<notin> status_row.truncate ` set df)"
  proof
    assume h: "query_station_status resp = Inr df \<and> load_stations resp = Inr rows"
    then have a: "\<forall>t\<in>set df. status_row.truncate t \<in> set rows
          \<and> is_renting t = Some True \<and> is_returning t = Some True"
      using query_station_status_active by blast
    have b: "\<forall>r\<in>set rows. is_renting r \<noteq> Some True \<or> is_returning r \<noteq> Some True \<longrightarrow>
            r \<notin> status_row.truncate ` set df"
    proof (intro ballI impI notI)
      fix r assume "r \<in> set rows"
        and n: "is_renting r \<noteq> Some True \<or> is_returning r \<noteq> Some True"
        and "r \<in> status_row.truncate ` set df"
      then obtain t where t: "t \<in> set df" "r = status_row.truncate t" by blast
      with a have "is_renting t = Some True \<and> is_returning t = Some True" by blast
      with t(2) n show False by simp
    qed
    from a b show "(\<forall>t\<in>set df. status_row.truncate t \<in> set rows
          \<and> is_renting t = Some True \<and> is_returning t = Some True)
      \<and> (\<forall>r\<in>set rows. is_renting r \<noteq> Some True \<or> is_returning r \<noteq> Some True \<longrightarrow>
            r \<notin> status_row.truncate ` set df)"
      by (rule conjI)
  qed
  have c2: "traces_to rows fresh_app" by (rule traces_to_fresh)
  have c3: "traces_to rows a
        \<and> (status_cache a = None \<longrightarrow>
              load_stations (status_response inp) = Inr rows
              \<or> (\<exists>e. load_stations (status_response inp) = Inl e))
       \<longrightarrow> traces_to rows (fst (run_session_code a inp))"
  proof
    assume h: "traces_to rows a
        \<and> (status_cache a = None \<longrightarrow>
              load_stations (status_response inp) = Inr rows
              \<or> (\<exists>e. load_stations (status_response inp) = Inl e))"
    show "traces_to rows (fst (run_session_code a inp))"
      by (rule run_session_code_traces [OF conjunct1 [OF h] conjunct2 [OF h]])
  qed
  have c4: "case assign_availability s raw of
         Inl e \<Rightarrow> True
       | Inr r \<Rightarrow> is_renting r = Some True \<and> is_returning r = Some True
                  \<and> is_installed r = Some True"
    by (cases "assign_availability s raw") (simp_all add: assign_availability_frame)
  from c1 c2 c3 c4 show ?thesis by (intro conjI)
qed

theorem inactive_stations_excluded_witness:
  "query_station_status (status_response (sample_run False))
     = Inr [sample_timed ''A'' 100, sample_timed ''C'' 300]
   \<and> sample_status ''B'' False True 100
       \<notin> status_row.truncate ` set [sample_timed ''A'' 100, sample_timed ''C'' 300]
   \<and> traces_to [sample_status ''A'' True True 100, sample_status ''B'' False True 100,
         sample_status ''C'' True True 300] (fst (run_session_code fresh_app (sample_run False)))
   \<and> map station_id (stations (session (fst (run_session_code fresh_app (sample_run False)))))
       = [''A'', ''C'']"
proof -
  let ?rows = "[sample_status ''A'' True True 100, sample_status ''B'' False True 100,
         sample_status ''C'' True True 300]"
  let ?df = "[sample_timed ''A'' 100, sample_timed ''C'' 300]"
  have h1: "query_station_status (status_response (sample_run False)) = Inr ?df"
    by (simp add: pipeline_defs sample_timed_def)
  have h2: "load_stations (status_response (sample_run False)) = Inr ?rows"
    by (simp add: pipeline_defs)
  have m: "sample_status ''B'' False True 100 \<in> set ?rows" by simp
  have n: "is_renting (sample_status ''B'' False True 100) \<noteq> Some True
      \<or> is_returning (sample_status ''B'' False True 100) \<noteq> Some True"
    by (simp add: sample_status_def)
  have ids: "map station_id (stations (session (fst (run_session_code fresh_app (sample_run False)))))
       = [''A'', ''C'']"
    by (simp add: pipeline_defs)
  note t = inactive_stations_excluded [of "status_response (sample_run False)" ?df ?rows
      fresh_app "sample_run False" "sample_station ''A'' (Some 10)" 7]
  note t1 = conjunct1 [OF t]
  note t2 = conjunct1 [OF conjunct2 [OF t]]
  note t3 = conjunct1 [OF conjunct2 [OF conjunct2 [OF t]]]
  from mp [OF t1 conjI [OF h1 h2]]
  have "\<forall>r\<in>set ?rows. is_renting r \<noteq> Some True \<or> is_returning r \<noteq> Some True \<longrightarrow>
            r \<notin> status_row.truncate ` set ?df"
    by (rule conjunct2)
  from mp [OF bspec [OF this m] n] have a: "sample_status ''B'' False True 100
       \<notin> status_row.truncate ` set ?df" .
  have x: "status_cache fresh_app = None \<longrightarrow>
              load_stations (status_response (sample_run False)) = Inr ?rows
              \<or> (\<exists>e. load_stations (status_response (sample_run False)) = Inl e)"
    using h2 by simp
  from mp [OF t3 conjI [OF t2 x]]
  have b: "traces_to ?rows (fst (run_session_code fresh_app (sample_run False)))" .
  from h1 a b ids show ?thesis by (intro conjI)
qed

subsection \<open>C4: reading the snapshot\<close>

lemma initialize_session_materialized:
  "last_update ss \<noteq> None \<Longrightarrow> initialize_session ss sb t d = (ss, None)"
  by (auto simp: initialize_session_def)

lemma session_step_read:
  "last_update ss \<noteq> None \<Longrightarrow> \<not> refresh_pressed inp \<Longrightarrow> session_step ss sb inp = (ss, None)"
  by (simp add: session_step_def initialize_session_materialized)

lemma run_session_code_read:
  assumes "last_update (session a) \<noteq> None" and "\<not> refresh_pressed inp"
  shows "session (fst (run_session_code a inp)) = session a"
proof (cases "fetch_stations_base (status_cache a) inp")
  case (Pair res cache')
  then show ?thesis
    using session_step_read [OF assms]
    by (cases res) (simp_all add: run_session_code_def)
qed

lemma run_session_code_read_result:
  assumes "last_update (session a) \<noteq> None" and "\<not> refresh_pressed inp"
  shows "snd (run_session_code a inp)
     = (case fst (fetch_stations_base (status_cache a) inp) of
          Inl e \<Rightarrow> Some e | Inr sb \<Rightarrow> None)"
proof (cases "fetch_stations_base (status_cache a) inp")
  case (Pair res cache')
  then show ?thesis
    using session_step_read [OF assms]
    by (cases res) (simp_all add: run_session_code_def)
qed

lemma initialize_session_sets_last_update:
  "last_update (fst (initialize_session ss sb t d)) \<noteq> None"
  by (simp add: initialize_session_def split: prod.splits)

lemma refresh_data_sets_last_update:
  "last_update (fst (refresh_data ss sb t d)) = Some t"
  by (simp add: refresh_data_def split: prod.splits)

lemma session_step_materializes:
  "last_update (fst (session_step ss sb inp)) \<noteq> None"
proof (cases "initialize_session ss sb (now inp) (draws inp)")
  case (Pair ss' err)
  then have "last_update ss' \<noteq> None"
    using initialize_session_sets_last_update [of ss sb "now inp" "draws inp"] by simp
  with Pair show ?thesis
    using refresh_data_sets_last_update [of ss' sb "now inp"]
    by (cases err) (simp_all add: session_step_def)
qed

lemma run_session_code_Inr:
  assumes "run_session_code a inp = (a', None)"
  shows "\<exists>sb. fetch_stations_base (status_cache a) inp = (Inr sb, status_cache a')
           \<and> session_step (session a) sb inp = (session a', None)"
proof (cases "fetch_stations_base (status_cache a) inp")
  case (Pair res cache')
  show ?thesis
  proof (cases res)
    case (Inl e)
    with Pair assms show ?thesis by (simp add: run_session_code_def)
  next
    case (Inr sb)
    with Pair assms show ?thesis
      by (auto simp: run_session_code_def split: prod.splits)
  qed
qed

lemma run_session_code_materializes:
  assumes "run_session_code a inp = (a', None)"
  shows "last_update (session a') \<noteq> None"
proof -
  from run_session_code_Inr [OF assms] obtain sb
    where "session_step (session a) sb inp = (session a', None)" by blast
  with session_step_materializes [of "session a" sb inp] show ?thesis by simp
qed

lemma fetch_stations_base_unpressed [simp]:
  "fetch_stations_base cache (inp\<lparr> refresh_pressed := p \<rparr>) = fetch_stations_base cache inp"
  by (simp add: fetch_stations_base_def split: prod.splits sum.splits)

lemma session_step_status_response:
  "session_step ss sb (inp\<lparr> status_response := r, refresh_pressed := p \<rparr>)
     = session_step ss sb (inp\<lparr> refresh_pressed := p \<rparr>)"
  by (simp add: session_step_def split: prod.splits option.splits)

lemma fetch_stations_base_warm:
  "fetch_stations_base (Some df) inp =
     (case get_station_latlon (info_response inp) of
        Inl e \<Rightarrow> Inl e
      | Inr station_info_df \<Rightarrow> merge_stations df station_info_df, Some df)"
  by (simp add: fetch_stations_base_def cached_query_station_status_def split: sum.splits)

lemma get_snapshot_session:
  assumes "last_update (session a) \<noteq> None"
  shows "session (fst (get_snapshot a inp)) = session a"
proof -
  have "session (fst (run_session_code a (inp\<lparr> refresh_pressed := False \<rparr>))) = session a"
    by (rule run_session_code_read [OF assms]) simp
  then show ?thesis
    by (cases "run_session_code a (inp\<lparr> refresh_pressed := False \<rparr>)")
      (simp add: get_snapshot_def split: option.splits)
qed

lemma get_snapshot_result:
  assumes "last_update (session a) \<noteq> None"
  shows "snd (get_snapshot a inp)
     = (case fst (fetch_stations_base (status_cache a) inp) of
          Inl e \<Rightarrow> Inl e | Inr sb \<Rightarrow> Inr (stations (session a)))"
proof -
  let ?inp = "inp\<lparr> refresh_pressed := False \<rparr>"
  have p: "\<not> refresh_pressed ?inp" by simp
  note s = run_session_code_read [OF assms p]
  note r = run_session_code_read_result [OF assms p]
  show ?thesis
  proof (cases "run_session_code a ?inp")
    case (Pair a' err)
    with s r have a': "session a' = session a"
      and err: "err = (case fst (fetch_stations_base (status_cache a) inp) of
          Inl e \<Rightarrow> Some e | Inr sb \<Rightarrow> None)"
      by simp_all
    show ?thesis
      by (cases "fst (fetch_stations_base (status_cache a) inp)")
        (simp_all add: get_snapshot_def Pair err a' page_frame_def)
  qed
qed

lemma get_snapshot_cache:
  "status_cache (fst (get_snapshot a inp)) = snd (fetch_stations_base (status_cache a) inp)"
proof (cases "fetch_stations_base (status_cache a) inp")
  case (Pair res cache')
  then show ?thesis
    by (cases res)
      (simp_all add: get_snapshot_def run_session_code_def split: prod.splits option.splits)
qed

lemma get_snapshot_warm:
  assumes "status_cache a = Some df"
  shows "get_snapshot a (inp\<lparr> status_response := r \<rparr>) = get_snapshot a inp"
proof -
  have "run_session_code a (inp\<lparr> status_response := r, refresh_pressed := False \<rparr>)
      = run_session_code a (inp\<lparr> refresh_pressed := False \<rparr>)"
    by (simp add: run_session_code_def assms fetch_stations_base_warm
        session_step_status_response split: sum.splits prod.splits)
  then show ?thesis by (simp add: get_snapshot_def)
qed

text \<open>
  C4 (amended). Reading the snapshot does not change it: once the session is materialized
  (\<open>last_update\<close> is set), a run of the script without a press of ``Refresh Data'' leaves
  the session as it is, whatever the endpoints, the clock and the random source yield in
  that run, so no re-randomization occurs. The run does fetch: it calls the uncached
  \<open>get_station_latlon\<close> again and merges before it reaches the page. The read returns the
  stored list exactly when that fetch and merge return, and raises their exception
  otherwise; the status feed is not fetched again once its frame is cached. So two reads
  that both return show the same stations with the same bikes_available, and a read whose
  information fetch fails raises although the snapshot is stored.
\<close>

theorem snapshot_read_idempotent:
  assumes "last_update (session a) \<noteq> None"
  shows
   "session (fst (get_snapshot a inp)) = session a
    \<and> snd (get_snapshot a inp)
        = (case fst (fetch_stations_base (status_cache a) inp) of
             Inl e \<Rightarrow> Inl e | Inr sb \<Rightarrow> Inr (stations (session a)))
    \<and> (\<forall>df. status_cache a = Some df \<longrightarrow>
          status_cache (fst (get_snapshot a inp)) = Some df
          \<and> (\<forall>r. get_snapshot a (inp\<lparr> status_response := r \<rparr>) = get_snapshot a inp)
          \<and> snd (get_snapshot a inp)
              = (case get_station_latlon (info_response inp) of
                   Inl e \<Rightarrow> Inl e
                 | Inr station_info_df \<Rightarrow>
                     (case merge_stations df station_info_df of
                        Inl e \<Rightarrow> Inl e | Inr sb \<Rightarrow> Inr (stations (session a)))))
    \<and> (\<forall>xs ys. snd (get_snapshot a inp) = Inr xs
          \<and> snd (get_snapshot (fst (get_snapshot a inp)) inp') = Inr ys \<longrightarrow>
          xs = stations (session a) \<and> ys = xs
          \<and> map bikes_available ys = map bikes_available xs)
    \<and> (\<forall>ss sb t d. last_update ss \<noteq> None \<longrightarrow> initialize_session ss sb t d = (ss, None))"
proof -
  note c1 = get_snapshot_session [OF assms, of inp]
  note c2 = get_snapshot_result [OF assms, of inp]
  have c3: "\<forall>df. status_cache a = Some df \<longrightarrow>
          status_cache (fst (get_snapshot a inp)) = Some df
          \<and> (\<forall>r. get_snapshot a (inp\<lparr> status_response := r \<rparr>) = get_snapshot a inp)
          \<and> snd (get_snapshot a inp)
              = (case get_station_latlon (info_response inp) of
                   Inl e \<Rightarrow> Inl e
                 | Inr station_info_df \<Rightarrow>
                     (case merge_stations df station_info_df of
                        Inl e \<Rightarrow> Inl e | Inr sb \<Rightarrow> Inr (stations (session a))))"
  proof (intro allI impI)
    fix df assume df: "status_cache a = Some df"
    have 1: "status_cache (fst (get_snapshot a inp)) = Some df"
      by (simp add: get_snapshot_cache df fetch_stations_base_warm)
    have 2: "\<forall>r. get_snapshot a (inp\<lparr> status_response := r \<rparr>) = get_snapshot a inp"
      by (simp add: get_snapshot_warm [OF df])
    have 3: "snd (get_snapshot a inp)
              = (case get_station_latlon (info_response inp) of
                   Inl e \<Rightarrow> Inl e
                 | Inr station_info_df \<Rightarrow>
                     (case merge_stations df station_info_df of
                        Inl e \<Rightarrow> Inl e | Inr sb \<Rightarrow> Inr (stations (session a))))"
      unfolding c2 df fetch_stations_base_warm
      by (simp split: sum.splits)
    show "status_cache (fst (get_snapshot a inp)) = Some df
          \<and> (\<forall>r. get_snapshot a (inp\<lparr> status_response := r \<rparr>) = get_snapshot a inp)
          \<and> snd (get_snapshot a inp)
              = (case get_station_latlon (info_response inp) of
                   Inl e \<Rightarrow> Inl e
                 | Inr station_info_df \<Rightarrow>
                     (case merge_stations df station_info_df of
                        Inl e \<Rightarrow> Inl e | Inr sb \<Rightarrow> Inr (stations (session a))))"
      by (rule conjI [OF 1 conjI [OF 2 3]])
  qed
  have c4: "\<forall>xs ys. snd (get_snapshot a inp) = Inr xs
          \<and> snd (get_snapshot (fst (get_snapshot a inp)) inp') = Inr ys \<longrightarrow>
          xs = stations (session a) \<and> ys = xs
          \<and> map bikes_available ys = map bikes_available xs"
  proof (intro allI impI)
    fix xs ys
    assume h: "snd (get_snapshot a inp) = Inr xs
          \<and> snd (get_snapshot (fst (get_snapshot a inp)) inp') = Inr ys"
    let ?a' = "fst (get_snapshot a inp)"
    from assms c1 have m: "last_update (session ?a') \<noteq> None" by simp
    from h c2 have x: "xs = stations (session a)"
      by (simp split: sum.splits)
    from h get_snapshot_result [OF m, of inp'] have "ys = stations (session ?a')"
      by (simp split: sum.splits)
    with c1 x have y: "ys = xs" by simp
    from x y show "xs = stations (session a) \<and> ys = xs
          \<and> map bikes_available ys = map bikes_available xs"
      by simp
  qed
  have c5: "\<forall>ss sb t d. last_update ss \<noteq> None \<longrightarrow> initialize_session ss sb t d = (ss, None)"
    by (simp add: initialize_session_materialized)
  show ?thesis
    by (rule conjI [OF c1 conjI [OF c2 conjI [OF c3 conjI [OF c4 c5]]]])
qed


theorem snapshot_read_idempotent_witness:
  "last_update (session (fst (get_snapshot fresh_app (sample_run False)))) = Some 1000
   \<and> session (fst (get_snapshot (fst (get_snapshot fresh_app (sample_run False))) duplicate_run))
       = session (fst (get_snapshot fresh_app (sample_run False)))
   \<and> snd (get_snapshot (fst (get_snapshot fresh_app (sample_run False))) duplicate_run)
       = Inr (stations (session (fst (get_snapshot fresh_app (sample_run False)))))
   \<and> map bikes_available (stations (session (fst (get_snapshot fresh_app (sample_run False)))))
       = [7, 3]
   \<and> get_snapshot (fst (get_snapshot fresh_app (sample_run False)))
         (duplicate_run\<lparr> status_response := UrlopenRaises URLError \<rparr>)
       = get_snapshot (fst (get_snapshot fresh_app (sample_run False))) duplicate_run"
proof -
  let ?a = "fst (get_snapshot fresh_app (sample_run False))"
  let ?df = "[sample_timed ''A'' 100, sample_timed ''C'' 300]"
  have m: "last_update (session ?a) = Some 1000"
    by (simp add: pipeline_defs get_snapshot_def)
  have b: "map bikes_available (stations (session ?a)) = [7, 3]"
    by (simp add: pipeline_defs get_snapshot_def)
  have c: "status_cache ?a = Some ?df"
    by (simp add: pipeline_defs get_snapshot_def sample_timed_def)
  have f: "fst (fetch_stations_base (status_cache ?a) duplicate_run)
      = Inr [merged_row (sample_timed ''A'' 100, Some (sample_info ''A'' ''Shibuya'' 10)),
             merged_row (sample_timed ''C'' 300, None)]"
    unfolding c
    by (simp add: fetch_stations_base_def cached_query_station_status_def get_station_latlon_def
        load_stations_def stations_member_def dict_getitem_def pd_DataFrame_def
        merge_stations_def merge_left_def duplicate_run_def feed_def sample_timed_def
        sample_info_def sample_status_def)
  from m have n: "last_update (session ?a) \<noteq> None" by simp
  note t = snapshot_read_idempotent [OF n, of duplicate_run duplicate_run]
  note t1 = conjunct1 [OF t]
  note t2 = conjunct1 [OF conjunct2 [OF t]]
  note t3 = conjunct1 [OF conjunct2 [OF conjunct2 [OF t]]]
  from t2 have r: "snd (get_snapshot ?a duplicate_run) = Inr (stations (session ?a))"
    unfolding f by simp
  note w = conjunct1 [OF conjunct2 [OF mp [OF spec [OF t3, of ?df] c]]]
  note w' = spec [OF w, of "UrlopenRaises URLError"]
  show ?thesis
    by (rule conjI [OF m conjI [OF t1 conjI [OF r conjI [OF b w']]]])
qed

text \<open>
  C4 as stated fails: the session of the first run is materialized and a read returns its
  two stations, but the next read, in a run where the information endpoint cannot be
  reached, raises \<open>URLError\<close> at line 43: a read does fetch again.
\<close>

theorem read_fetches_information_counterexample:
  "last_update (session (fst (get_snapshot fresh_app (sample_run False)))) = Some 1000
   \<and> map station_id (stations (session (fst (get_snapshot fresh_app (sample_run False)))))
       = [''A'', ''C'']
   \<and> map (map_sum id (map station_id))
       [snd (get_snapshot (fst (get_snapshot fresh_app (sample_run False))) (sample_run False)),
        snd (get_snapshot
          (fst (get_snapshot (fst (get_snapshot fresh_app (sample_run False))) (sample_run False)))
          info_down_run)]
       = [Inr [''A'', ''C''], Inl URLError]"
  by (simp add: pipeline_defs get_snapshot_def page_frame_def info_down_run_def)

subsection \<open>Facts about regeneration\<close>

lemma assign_availability_static:
  assumes "assign_availability s raw = Inr r"
  shows "static_columns r = static_columns s"
  unfolding static_columns_def
  by (simp only: assign_availability_frame(1-10) [OF assms])

lemma generate_static:
  assumes "generate d k sb [] = (xs, None)"
  shows "map static_columns xs = map static_columns sb"
proof -
  from generate_shape [OF assms] obtain ys where ys: "xs = [] @ ys"
    "\<forall>i<length ys. assign_availability (sb ! i) (d (k + i)) = Inr (ys ! i)"
    "length ys = length sb"
    by auto
  show ?thesis
  proof (rule nth_equalityI)
    show "length (map static_columns xs) = length (map static_columns sb)"
      using ys by simp
  next
    fix i assume "i < length (map static_columns xs)"
    then have i: "i < length ys" using ys by simp
    with ys(2) have "assign_availability (sb ! i) (d (k + i)) = Inr (ys ! i)" by blast
    then have "static_columns (ys ! i) = static_columns (sb ! i)"
      by (rule assign_availability_static)
    with i ys show "map static_columns xs ! i = map static_columns sb ! i" by simp
  qed
qed

lemma refresh_data_static:
  assumes "refresh_data ss sb t d = (ss', None)"
  shows "map static_columns (stations ss') = map static_columns sb \<and> last_update ss' = Some t"
proof (cases "generate d 0 sb []")
  case (Pair xs err)
  with assms have "err = None" "ss' = \<lparr> last_update = Some t, stations = xs \<rparr>"
    by (auto simp: refresh_data_def)
  with Pair generate_static [of d 0 sb xs] show ?thesis by simp
qed

lemma initialize_session_static:
  assumes "initialize_session ss sb t d = (ss', None)" and "last_update ss = None"
  shows "map static_columns (stations ss') = map static_columns sb \<and> last_update ss' = Some t"
proof (cases "generate d 0 sb []")
  case (Pair xs err)
  with assms have "err = None" "ss' = \<lparr> last_update = Some t, stations = xs \<rparr>"
    by (auto simp: initialize_session_def)
  with Pair generate_static [of d 0 sb xs] show ?thesis by simp
qed

lemma session_step_static:
  assumes s: "session_step ss sb inp = (ss', None)"
    and c: "last_update ss = None \<or> refresh_pressed inp"
  shows "map static_columns (stations ss') = map static_columns sb
           \<and> last_update ss' = Some (now inp)"
proof (cases "initialize_session ss sb (now inp) (draws inp)")
  case (Pair ss1 err)
  show ?thesis
  proof (cases err)
    case (Some e)
    with Pair s show ?thesis by (simp add: session_step_def)
  next
    case None
    show ?thesis
    proof (cases "refresh_pressed inp")
      case True
      with Pair None s have "refresh_data ss1 sb (now inp)
          (\<lambda>k. draws inp (k + (if last_update ss = None then length sb else 0))) = (ss', None)"
        by (simp add: session_step_def)
      then show ?thesis by (rule refresh_data_static)
    next
      case False
      with Pair None s have "ss' = ss1" by (simp add: session_step_def)
      moreover from False c have "last_update ss = None" by simp
      ultimately show ?thesis
        using initialize_session_static [of ss sb "now inp" "draws inp" ss1] Pair None
        by simp
    qed
  qed
qed

lemma cached_query_warm:
  assumes "cached_query_station_status cache resp = (Inr df, cache')"
  shows "cache' = Some df"
  using assms
  by (auto simp: cached_query_station_status_def split: option.splits sum.splits)

lemma cached_query_hit:
  "cached_query_station_status (Some df) resp = (Inr df, Some df)"
  by (simp add: cached_query_station_status_def)

lemma fetch_stations_base_again:
  assumes f: "fetch_stations_base cache inp = (Inr sb, cache')"
    and i: "info_response inp' = info_response inp"
  shows "fetch_stations_base cache' inp' = (Inr sb, cache')"
proof (cases "cached_query_station_status cache (status_response inp)")
  case (Pair q cache'')
  show ?thesis
  proof (cases q)
    case (Inl e)
    with Pair f show ?thesis by (simp add: fetch_stations_base_def)
  next
    case (Inr sdf)
    with Pair have w: "cache'' = Some sdf" using cached_query_warm by blast
    show ?thesis
    proof (cases "get_station_latlon (info_response inp)")
      case (Inl e)
      with Pair Inr f show ?thesis by (simp add: fetch_stations_base_def)
    next
      case idf: (Inr idf)
      with Pair Inr f have "merge_stations sdf idf = Inr sb" "cache' = cache''"
        by (simp_all add: fetch_stations_base_def)
      with w idf i show ?thesis
        by (simp add: fetch_stations_base_def cached_query_hit)
    qed
  qed
qed

text \<open>What the loop has stored when it ends, with or without an exception.\<close>

lemma generate_prefix:
  assumes "generate d k sb [] = (xs, err)"
  shows "map static_columns xs = take (length xs) (map static_columns sb)
     \<and> (err = None \<longrightarrow> length xs = length sb)
     \<and> (err \<noteq> None \<longrightarrow> length xs < length sb)"
proof -
  from generate_shape [OF assms] obtain ys where ys: "xs = [] @ ys"
    "length ys \<le> length sb"
    "\<forall>i<length ys. assign_availability (sb ! i) (d (k + i)) = Inr (ys ! i)"
    "err = None \<longrightarrow> length ys = length sb"
    "\<forall>e. err = Some e \<longrightarrow> length ys < length sb"
    by blast
  from ys(1) have xs: "xs = ys" by simp
  have a: "map static_columns ys = take (length ys) (map static_columns sb)"
  proof (rule nth_equalityI)
    show "length (map static_columns ys) = length (take (length ys) (map static_columns sb))"
      using ys(2) by simp
  next
    fix i assume "i < length (map static_columns ys)"
    then have i: "i < length ys" by simp
    with ys(3) have "assign_availability (sb ! i) (d (k + i)) = Inr (ys ! i)" by blast
    then have "static_columns (ys ! i) = static_columns (sb ! i)"
      by (rule assign_availability_static)
    with i ys(2) show "map static_columns ys ! i = take (length ys) (map static_columns sb) ! i"
      by simp
  qed
  have c: "err \<noteq> None \<longrightarrow> length ys < length sb"
    using ys(5) by (cases err) simp_all
  from a ys(4) c show ?thesis unfolding xs by (intro conjI)
qed

lemma refresh_data_prefix:
  assumes "refresh_data ss sb t d = (ss', err)"
  shows "last_update ss' = Some t
     \<and> map static_columns (stations ss')
         = take (length (stations ss')) (map static_columns sb)
     \<and> (err = None \<longrightarrow> length (stations ss') = length sb)
     \<and> (err \<noteq> None \<longrightarrow> length (stations ss') < length sb)"
proof (cases "generate d 0 sb []")
  case (Pair xs e)
  with assms have "err = e" "ss' = \<lparr> last_update = Some t, stations = xs \<rparr>"
    by (auto simp: refresh_data_def)
  with generate_prefix [OF Pair] show ?thesis by simp
qed

lemma run_session_code_pressed:
  assumes m: "last_update (session a) \<noteq> None" and p: "refresh_pressed inp"
    and r: "run_session_code a inp = (a', err)"
  shows "case fst (fetch_stations_base (status_cache a) inp) of
           Inl e \<Rightarrow> err = Some e \<and> session a' = session a
         | Inr base \<Rightarrow>
             last_update (session a') = Some (now inp)
             \<and> map static_columns (stations (session a'))
                 = take (length (stations (session a'))) (map static_columns base)
             \<and> (err = None \<longrightarrow> length (stations (session a')) = length base)
             \<and> (err \<noteq> None \<longrightarrow> length (stations (session a')) < length base)"
proof (cases "fetch_stations_base (status_cache a) inp")
  case (Pair res cache')
  show ?thesis
  proof (cases res)
    case (Inl e)
    with Pair r show ?thesis by (auto simp: run_session_code_def)
  next
    case (Inr base)
    from m have s: "session_step (session a) base inp
        = refresh_data (session a) base (now inp) (draws inp)"
      using p by (auto simp: session_step_def initialize_session_materialized)
    from Pair Inr r s have "refresh_data (session a) base (now inp) (draws inp)
        = (session a', err)"
      by (auto simp: run_session_code_def split: prod.splits)
    from refresh_data_prefix [OF this] Pair Inr show ?thesis by simp
  qed
qed

subsection \<open>C5: what a refresh changes\<close>

text \<open>
  C5 (amended). The handler of ``Refresh Data'' fetches nothing and re-randomizes over
  \<open>stations_base\<close>, the list reconciled by the run of the script that handles the press:
  the cached status frame merged with the information feed as fetched in that run. When
  that run ends without an exception, the snapshot has, in order, the station_ids and the
  capacity, name, lat, lon and every other column of that list except bikes_available,
  docks_available and the three flags, and \<open>last_update\<close> is the time of the press; with
  respect to the snapshot materialized before, these columns are unchanged whenever the
  information endpoint answers as it did in the run that materialized it. When the fetch
  or the merge of that run raises, the handler is not reached and the session stays as it
  was.

  The last part of the statement also covers the run in which the generator raises at a
  station, the defect described under C9, which the amended claim leaves out: the stored
  snapshot has then already been replaced by the records of the stations before that one,
  a strict prefix of the list, and \<open>last_update\<close> is the time of the press.
\<close>

theorem refresh_regenerates_over_stations_base:
  "(refresh_data ss sb t d = (ss', None) \<longrightarrow>
      map static_columns (stations ss') = map static_columns sb \<and> last_update ss' = Some t)
   \<and> (refresh_pressed inp \<and> run_session_code a inp = (a', None) \<longrightarrow>
        (\<exists>base. fetch_stations_base (status_cache a) inp = (Inr base, status_cache a')
           \<and> map static_columns (stations (session a')) = map static_columns base
           \<and> last_update (session a') = Some (now inp)))
   \<and> (last_update (session a0) = None \<and> run_session_code a0 inp1 = (a1, None)
        \<and> refresh_pressed inp2 \<and> info_response inp2 = info_response inp1
        \<and> run_session_code a1 inp2 = (a2, None) \<longrightarrow>
        map static_columns (stations (session a2)) = map static_columns (stations (session a1))
        \<and> last_update (session a2) = Some (now inp2))
   \<and> (last_update (session b) \<noteq> None \<and> refresh_pressed inp3
        \<and> run_session_code b inp3 = (b', err) \<longrightarrow>
        (case fst (fetch_stations_base (status_cache b) inp3) of
           Inl e \<Rightarrow> err = Some e \<and> session b' = session b
         | Inr base \<Rightarrow>
             last_update (session b') = Some (now inp3)
             \<and> map static_columns (stations (session b'))
                 = take (length (stations (session b'))) (map static_columns base)
             \<and> (err = None \<longrightarrow> length (stations (session b')) = length base)
             \<and> (err \<noteq> None \<longrightarrow> length (stations (session b')) < length base)))"
proof -
  have c1: "refresh_data ss sb t d = (ss', None) \<longrightarrow>
      map static_columns (stations ss') = map static_columns sb \<and> last_update ss' = Some t"
    using refresh_data_static by blast
  have c2: "refresh_pressed inp \<and> run_session_code a inp = (a', None) \<longrightarrow>
        (\<exists>base. fetch_stations_base (status_cache a) inp = (Inr base, status_cache a')
           \<and> map static_columns (stations (session a')) = map static_columns base
           \<and> last_update (session a') = Some (now inp))"
  proof
    assume h: "refresh_pressed inp \<and> run_session_code a inp = (a', None)"
    then obtain base where b: "fetch_stations_base (status_cache a) inp = (Inr base, status_cache a')"
      "session_step (session a) base inp = (session a', None)"
      using run_session_code_Inr by blast
    from session_step_static [OF b(2)] h
    have "map static_columns (stations (session a')) = map static_columns base
           \<and> last_update (session a') = Some (now inp)" by simp
    with b(1) show "\<exists>base. fetch_stations_base (status_cache a) inp = (Inr base, status_cache a')
           \<and> map static_columns (stations (session a')) = map static_columns base
           \<and> last_update (session a') = Some (now inp)" by blast
  qed
  have c3: "last_update (session a0) = None \<and> run_session_code a0 inp1 = (a1, None)
        \<and> refresh_pressed inp2 \<and> info_response inp2 = info_response inp1
        \<and> run_session_code a1 inp2 = (a2, None) \<longrightarrow>
        map static_columns (stations (session a2)) = map static_columns (stations (session a1))
        \<and> last_update (session a2) = Some (now inp2)"
  proof
    assume h: "last_update (session a0) = None \<and> run_session_code a0 inp1 = (a1, None)
        \<and> refresh_pressed inp2 \<and> info_response inp2 = info_response inp1
        \<and> run_session_code a1 inp2 = (a2, None)"
    then obtain b1 where b1: "fetch_stations_base (status_cache a0) inp1 = (Inr b1, status_cache a1)"
      "session_step (session a0) b1 inp1 = (session a1, None)"
      using run_session_code_Inr by blast
    from h obtain b2 where b2: "fetch_stations_base (status_cache a1) inp2 = (Inr b2, status_cache a2)"
      "session_step (session a1) b2 inp2 = (session a2, None)"
      using run_session_code_Inr by blast
    from h have "info_response inp2 = info_response inp1" by simp
    from fetch_stations_base_again [OF b1(1) this] b2(1) have same: "b2 = b1" by simp
    from session_step_static [OF b1(2)] h
    have s1: "map static_columns (stations (session a1)) = map static_columns b1" by simp
    from session_step_static [OF b2(2)] h
    have s2: "map static_columns (stations (session a2)) = map static_columns b2
        \<and> last_update (session a2) = Some (now inp2)" by simp
    from s1 s2 same show "map static_columns (stations (session a2))
          = map static_columns (stations (session a1))
        \<and> last_update (session a2) = Some (now inp2)" by simp
  qed
  have c4: "last_update (session b) \<noteq> None \<and> refresh_pressed inp3
        \<and> run_session_code b inp3 = (b', err) \<longrightarrow>
        (case fst (fetch_stations_base (status_cache b) inp3) of
           Inl e \<Rightarrow> err = Some e \<and> session b' = session b
         | Inr base \<Rightarrow>
             last_update (session b') = Some (now inp3)
             \<and> map static_columns (stations (session b'))
                 = take (length (stations (session b'))) (map static_columns base)
             \<and> (err = None \<longrightarrow> length (stations (session b')) = length base)
             \<and> (err \<noteq> None \<longrightarrow> length (stations (session b')) < length base))"
  proof
    assume h: "last_update (session b) \<noteq> None \<and> refresh_pressed inp3
        \<and> run_session_code b inp3 = (b', err)"
    show "case fst (fetch_stations_base (status_cache b) inp3) of
           Inl e \<Rightarrow> err = Some e \<and> session b' = session b
         | Inr base \<Rightarrow>
             last_update (session b') = Some (now inp3)
             \<and> map static_columns (stations (session b'))
                 = take (length (stations (session b'))) (map static_columns base)
             \<and> (err = None \<longrightarrow> length (stations (session b')) = length base)
             \<and> (err \<noteq> None \<longrightarrow> length (stations (session b')) < length base)"
      by (rule run_session_code_pressed [OF conjunct1 [OF h] conjunct1 [OF conjunct2 [OF h]]
            conjunct2 [OF conjunct2 [OF h]]])
  qed
  show ?thesis by (rule conjI [OF c1 conjI [OF c2 conjI [OF c3 c4]]])
qed

theorem refresh_regenerates_over_stations_base_witness:
  "snd (run_session_code fresh_app (sample_run False)) = None
   \<and> snd (run_session_code (fst (run_session_code fresh_app (sample_run False))) (sample_run True)) = None
   \<and> map static_columns (stations (session
         (fst (run_session_code (fst (run_session_code fresh_app (sample_run False))) (sample_run True)))))
       = map static_columns (stations (session (fst (run_session_code fresh_app (sample_run False)))))
   \<and> last_update (session
         (fst (run_session_code (fst (run_session_code fresh_app (sample_run False))) (sample_run True))))
       = Some 1000
   \<and> map station_id (stations (session
         (fst (run_session_code (fst (run_session_code fresh_app (sample_run False))) (sample_run True)))))
       = [''A'', ''C'']
   \<and> snd (run_session_code (fst (run_session_code fresh_app (sample_run False))) lost_info_run)
       = Some ValueError
   \<and> last_update (session
         (fst (run_session_code (fst (run_session_code fresh_app (sample_run False))) lost_info_run)))
       = Some 2000
   \<and> length (stations (session
         (fst (run_session_code (fst (run_session_code fresh_app (sample_run False))) lost_info_run))))
       < 2"
proof -
  let ?a1 = "fst (run_session_code fresh_app (sample_run False))"
  let ?a2 = "fst (run_session_code ?a1 (sample_run True))"
  let ?a3 = "fst (run_session_code ?a1 lost_info_run)"
  let ?base = "[merged_row (sample_timed ''A'' 100, Some (sample_info ''A'' ''Shibuya'' 10)),
             merged_row (sample_timed ''C'' 300, None)]"
  have r1: "snd (run_session_code fresh_app (sample_run False)) = None"
    by (simp add: pipeline_defs)
  have r2: "snd (run_session_code ?a1 (sample_run True)) = None"
    by (simp add: pipeline_defs)
  have r3: "snd (run_session_code ?a1 lost_info_run) = Some ValueError"
    by (simp add: pipeline_defs lost_info_run_def)
  have ids: "map station_id (stations (session ?a2)) = [''A'', ''C'']"
    by (simp add: pipeline_defs)
  have n: "now (sample_run True) = 1000" by (simp add: sample_run_def)
  have n3: "now lost_info_run = 2000" by (simp add: lost_info_run_def)
  from r1 have e1: "run_session_code fresh_app (sample_run False) = (?a1, None)"
    by (metis prod.collapse)
  from r2 have e2: "run_session_code ?a1 (sample_run True) = (?a2, None)"
    by (metis prod.collapse)
  from r3 have e3: "run_session_code ?a1 lost_info_run = (?a3, Some ValueError)"
    by (metis prod.collapse)
  have f: "last_update (session fresh_app) = None"
    by (simp add: fresh_app_def fresh_session_def)
  have m: "last_update (session ?a1) \<noteq> None"
    by (simp add: pipeline_defs)
  have p: "refresh_pressed (sample_run True)" by (simp add: sample_run_def)
  have p3: "refresh_pressed lost_info_run" by (simp add: lost_info_run_def)
  have i: "info_response (sample_run True) = info_response (sample_run False)"
    by (simp add: sample_run_def)
  have b: "fst (fetch_stations_base (status_cache ?a1) lost_info_run) = Inr ?base"
    by (simp add: pipeline_defs lost_info_run_def sample_timed_def)
  note t = refresh_regenerates_over_stations_base [of fresh_session "[]" 0 "\<lambda>k. k"
      "\<lparr> last_update = Some 0, stations = [] \<rparr>" "sample_run True" ?a1 ?a2 fresh_app
      "sample_run False" ?a1 "sample_run True" ?a2 ?a1 lost_info_run ?a3 "Some ValueError"]
  note t3 = conjunct1 [OF conjunct2 [OF conjunct2 [OF t]]]
  note t4 = conjunct2 [OF conjunct2 [OF conjunct2 [OF t]]]
  from mp [OF t3 conjI [OF f conjI [OF e1 conjI [OF p conjI [OF i e2]]]]]
  have s: "map static_columns (stations (session ?a2))
      = map static_columns (stations (session ?a1))
    \<and> last_update (session ?a2) = Some (now (sample_run True))" .
  from mp [OF t4 conjI [OF m conjI [OF p3 e3]]]
  have u: "last_update (session ?a3) = Some (now lost_info_run)
      \<and> length (stations (session ?a3)) < length ?base"
    unfolding b by simp
  from r1 r2 s ids n r3 u n3 show ?thesis by simp
qed

text \<open>
  C5 as stated fails when the information endpoint answers differently in the run of the
  press: station A changes its name and its capacity in the snapshot.
\<close>

theorem refresh_keeps_static_columns_counterexample:
  "map (\<lambda>r. (station_id r, station.name r, station.capacity r))
       (stations (session (fst (run_session_code fresh_app (sample_run False)))))
     = [(''A'', Some ''Shibuya'', Some 10), (''C'', Some ''Ueno'', Some 4)]
   \<and> snd (run_session_code (fst (run_session_code fresh_app (sample_run False))) changed_info_run) = None
   \<and> map (\<lambda>r. (station_id r, station.name r, station.capacity r))
       (stations (session
          (fst (run_session_code (fst (run_session_code fresh_app (sample_run False))) changed_info_run))))
     = [(''A'', Some ''Shibuya Crossing'', Some 20), (''C'', Some ''Ueno'', Some 4)]"
  by (simp add: pipeline_defs changed_info_run_def)

subsection \<open>Facts about failing fetches\<close>

lemma load_stations_Body:
  "load_stations (Body (Some doc)) =
     (case stations_member doc of Inl e \<Rightarrow> Inl e | Inr s \<Rightarrow> pd_DataFrame s)"
  by (simp add: load_stations_def)

lemma load_stations_failures:
  "load_stations (UrlopenRaises e) = Inl e"
  "load_stations (Body None) = Inl JSONDecodeError"
  "stations_member doc = Inl e \<Longrightarrow> load_stations (Body (Some doc)) = Inl e"
  "stations_member doc = Inr Scalar \<Longrightarrow> load_stations (Body (Some doc)) = Inl ValueError"
  by (simp_all add: load_stations_Body pd_DataFrame_def) (simp_all add: load_stations_def)

lemma app_state_eq: "status_cache a = c \<Longrightarrow> \<lparr> status_cache = c, session = session a \<rparr> = a"
  by (cases a) simp

lemma run_session_code_fetch_error:
  "fetch_stations_base (status_cache a) inp = (Inl e, c) \<Longrightarrow>
     run_session_code a inp = (\<lparr> status_cache = c, session = session a \<rparr>, Some e)"
  by (simp add: run_session_code_def)

lemma fetch_status_error:
  assumes "cache = None" and "load_stations (status_response inp) = Inl e"
  shows "fetch_stations_base cache inp = (Inl e, None)"
  using assms load_stations_query_error [OF assms(2)]
  by (simp add: fetch_stations_base_def cached_query_station_status_def)

lemma fetch_info_error:
  assumes "load_stations (info_response inp) = Inl e"
  shows "\<exists>e' c. fetch_stations_base cache inp = (Inl e', c)"
proof (cases "cached_query_station_status cache (status_response inp)")
  case (Pair q c)
  with assms show ?thesis
    by (cases q) (simp_all add: fetch_stations_base_def get_station_latlon_def)
qed

lemma query_station_status_nonempty:
  "query_station_status resp = Inr df \<Longrightarrow> \<exists>rows. load_stations resp = Inr rows \<and> rows \<noteq> []"
  using query_station_status_Inr by blast

lemma fetch_stations_base_Inr:
  assumes "fetch_stations_base cache inp = (Inr sb, c)"
  shows "(\<exists>irows. load_stations (info_response inp) = Inr irows \<and> irows \<noteq> [])
       \<and> (cache = None \<longrightarrow>
            (\<exists>srows. load_stations (status_response inp) = Inr srows \<and> srows \<noteq> []))"
proof (cases "cached_query_station_status cache (status_response inp)")
  case (Pair q c')
  show ?thesis
  proof (cases q)
    case (Inl e)
    with Pair assms show ?thesis by (simp add: fetch_stations_base_def)
  next
    case (Inr sdf)
    have s: "cache = None \<longrightarrow>
            (\<exists>srows. load_stations (status_response inp) = Inr srows \<and> srows \<noteq> [])"
    proof
      assume "cache = None"
      with Pair Inr have "query_station_status (status_response inp) = Inr sdf"
        by (simp add: cached_query_station_status_def split: sum.splits)
      then show "\<exists>srows. load_stations (status_response inp) = Inr srows \<and> srows \<noteq> []"
        by (rule query_station_status_nonempty)
    qed
    show ?thesis
    proof (cases "load_stations (info_response inp)")
      case (Inl e)
      with Pair Inr assms show ?thesis
        by (simp add: fetch_stations_base_def get_station_latlon_def)
    next
      case idf: (Inr idf)
      with Pair Inr assms have "merge_stations sdf idf = Inr sb"
        by (simp add: fetch_stations_base_def get_station_latlon_def)
      then have "idf \<noteq> []" using merge_stations_Inr by blast
      with idf s show ?thesis by simp
    qed
  qed
qed

subsection \<open>C9: failing fetches and feeds that do not match\<close>

text \<open>
  What holds of a failing fetch: when \<open>urlopen\<close> raises, the body is not JSON, or the
  document has no \<open>data.stations\<close> member or a scalar there, the loading statements raise
  and the exception ends the run. A failing status fetch (with an empty cache) leaves the
  application as it was, a failing information fetch leaves the session as it was, and a
  run ends without an exception only if the information endpoint, and the status endpoint
  when it is fetched, answered with a non-empty station list.
\<close>

lemma fetch_errors_end_the_run:
  "load_stations (UrlopenRaises e) = Inl e
   \<and> load_stations (Body None) = Inl JSONDecodeError
   \<and> (stations_member doc = Inl e \<longrightarrow> load_stations (Body (Some doc)) = Inl e)
   \<and> (stations_member doc = Inr Scalar \<longrightarrow> load_stations (Body (Some doc)) = Inl ValueError)
   \<and> (status_cache a = None \<and> load_stations (status_response inp) = Inl e1 \<longrightarrow>
        run_session_code a inp = (a, Some e1))
   \<and> (load_stations (info_response inp) = Inl e2 \<longrightarrow>
        (\<exists>e'. snd (run_session_code a inp) = Some e') \<and> session (fst (run_session_code a inp)) = session a)
   \<and> (run_session_code a inp = (a', None) \<longrightarrow>
        (\<exists>irows. load_stations (info_response inp) = Inr irows \<and> irows \<noteq> [])
        \<and> (status_cache a = None \<longrightarrow>
              (\<exists>srows. load_stations (status_response inp) = Inr srows \<and> srows \<noteq> [])))"
proof -
  have c1: "load_stations (UrlopenRaises e) = Inl e"
    and c2: "load_stations (Body None) = Inl JSONDecodeError"
    and c3: "stations_member doc = Inl e \<longrightarrow> load_stations (Body (Some doc)) = Inl e"
    and c4: "stations_member doc = Inr Scalar \<longrightarrow>
               load_stations (Body (Some doc)) = Inl ValueError"
    by (simp_all add: load_stations_failures)
  have c5: "status_cache a = None \<and> load_stations (status_response inp) = Inl e1 \<longrightarrow>
        run_session_code a inp = (a, Some e1)"
  proof
    assume h: "status_cache a = None \<and> load_stations (status_response inp) = Inl e1"
    then have "fetch_stations_base (status_cache a) inp = (Inl e1, None)"
      by (simp add: fetch_status_error)
    then have "run_session_code a inp = (\<lparr> status_cache = None, session = session a \<rparr>, Some e1)"
      by (rule run_session_code_fetch_error)
    with h show "run_session_code a inp = (a, Some e1)" by (simp add: app_state_eq)
  qed
  have c6: "load_stations (info_response inp) = Inl e2 \<longrightarrow>
        (\<exists>e'. snd (run_session_code a inp) = Some e') \<and> session (fst (run_session_code a inp)) = session a"
  proof
    assume "load_stations (info_response inp) = Inl e2"
    then obtain e' c where "fetch_stations_base (status_cache a) inp = (Inl e', c)"
      using fetch_info_error by blast
    then have "run_session_code a inp = (\<lparr> status_cache = c, session = session a \<rparr>, Some e')"
      by (rule run_session_code_fetch_error)
    then show "(\<exists>e'. snd (run_session_code a inp) = Some e')
        \<and> session (fst (run_session_code a inp)) = session a"
      by simp
  qed
  have c7: "run_session_code a inp = (a', None) \<longrightarrow>
        (\<exists>irows. load_stations (info_response inp) = Inr irows \<and> irows \<noteq> [])
        \<and> (status_cache a = None \<longrightarrow>
              (\<exists>srows. load_stations (status_response inp) = Inr srows \<and> srows \<noteq> []))"
  proof
    assume "run_session_code a inp = (a', None)"
    then obtain sb where "fetch_stations_base (status_cache a) inp = (Inr sb, status_cache a')"
      using run_session_code_Inr by blast
    then show "(\<exists>irows. load_stations (info_response inp) = Inr irows \<and> irows \<noteq> [])
        \<and> (status_cache a = None \<longrightarrow>
              (\<exists>srows. load_stations (status_response inp) = Inr srows \<and> srows \<noteq> []))"
      by (rule fetch_stations_base_Inr)
  qed
  from c1 c2 c3 c4 c5 c6 c7 show ?thesis by (intro conjI)
qed

text \<open>
  Evaluated: a status endpoint that answers 503 ends the first run and leaves the
  application as it was; an information document without the \<open>stations\<close> member ends the
  run with \<open>KeyError\<close> and leaves the session empty and not materialized.
\<close>

lemma failing_fetch_examples:
  "run_session_code fresh_app failing_run = (fresh_app, Some (HTTPError 503))
   \<and> load_stations (info_response unshaped_run) = Inl (KeyError ''stations'')
   \<and> snd (run_session_code fresh_app unshaped_run) = Some (KeyError ''stations'')
   \<and> session (fst (run_session_code fresh_app unshaped_run)) = fresh_session"
  by (simp add: pipeline_defs failing_run_def unshaped_run_def)

text \<open>
  C9. The claim says that a snapshot is produced if and only if both feed documents are
  fetched and parsed, and that no empty data is ever substituted. The code does not do
  this. Lines 46 and 71 merge with \<open>how='left'\<close>, which keeps a status station that has no
  information record and gives it a null capacity; line 80 passes that capacity to
  \<open>random.randint\<close>, which raises \<open>ValueError\<close>. By then lines 77 and 78 have stored
  \<open>last_update\<close> and the empty list, and the stations before the unmatched one have been
  appended.

  Evaluated on the code: the status feed lists station A (renting and returning), the
  information feed lists only station C. Both documents are fetched and parsed. The first
  run raises \<open>ValueError\<close> and leaves \<open>last_update\<close> set and an empty station list in the
  session. The session block never runs again: the next run raises nothing in lines 42 to
  85 and its page reads the empty list as the snapshot. With the status feed listing A
  and C and the information feed only A, the run raises at C and the list holds A alone.
\<close>

theorem unmatched_station_breaks_snapshot:
  "load_stations (status_response unmatched_run) = Inr [sample_status ''A'' True True 100]
   \<and> load_stations (info_response unmatched_run) = Inr [sample_info ''C'' ''Ueno'' 4]
   \<and> snd (run_session_code fresh_app unmatched_run) = Some ValueError
   \<and> session (fst (run_session_code fresh_app unmatched_run))
       = \<lparr> last_update = Some 1000, stations = [] \<rparr>
   \<and> snd (get_snapshot (fst (run_session_code fresh_app unmatched_run)) unmatched_run) = Inr []
   \<and> snd (get_snapshot (fst (run_session_code fresh_app unmatched_run)) (sample_run False))
       = Inr []
   \<and> snd (run_session_code fresh_app (lost_info_run\<lparr> refresh_pressed := False \<rparr>))
       = Some ValueError
   \<and> last_update (session
         (fst (run_session_code fresh_app (lost_info_run\<lparr> refresh_pressed := False \<rparr>))))
       = Some 2000
   \<and> map station_id (stations (session
         (fst (run_session_code fresh_app (lost_info_run\<lparr> refresh_pressed := False \<rparr>)))))
       = [''A'']"
  by (simp add: pipeline_defs unmatched_run_def lost_info_run_def get_snapshot_def
      page_frame_def)

subsection \<open>Facts about \<open>nlargest\<close>\<close>

lemma map_insort_key: "map f (insort_key f x xs) = insort (f x) (map f xs)"
  by (induction xs) simp_all

lemma map_sort_key: "map f (sort_key f xs) = sort (map f xs)"
  by (induction xs) (simp_all add: map_insort_key)

lemma length_nlargest: "length (nlargest n column df) = min n (length df)"
  by (simp add: nlargest_def min.commute)

lemma column_nlargest:
  "map column (nlargest n column df) = take n (map uminus (sort (map (\<lambda>r. - column r) df)))"
proof -
  have "map column (sort_key (\<lambda>r. - column r) df)
      = map uminus (map (\<lambda>r. - column r) (sort_key (\<lambda>r. - column r) df))"
    by (simp add: comp_def)
  also have "\<dots> = map uminus (sort (map (\<lambda>r. - column r) df))"
    by (simp only: map_sort_key)
  finally have "map column (sort_key (\<lambda>r. - column r) df)
      = map uminus (sort (map (\<lambda>r. - column r) df))" .
  then have "take n (map column (sort_key (\<lambda>r. - column r) df))
      = take n (map uminus (sort (map (\<lambda>r. - column r) df)))"
    by (rule arg_cong)
  then show ?thesis by (simp only: nlargest_def take_map)
qed

lemma descending_nlargest: "sorted_wrt (\<ge>) (map column (nlargest n column df))"
proof -
  have "sorted (sort (map (\<lambda>r. - column r) df))" by simp
  then have "sorted_wrt (\<ge>) (map uminus (sort (map (\<lambda>r. - column r) df)))"
    by (simp add: sorted_wrt_map sorted_wrt_iff_nth_less sorted_iff_nth_mono)
  then have "sorted_wrt (\<ge>) (take n (map uminus (sort (map (\<lambda>r. - column r) df))))"
    by (rule sorted_wrt_take)
  then show ?thesis by (simp only: column_nlargest)
qed

lemma mset_nlargest: "mset (nlargest n column df) \<subseteq># mset df"
proof -
  have "mset (take n (sort_key (\<lambda>r. - column r) df))
      \<subseteq># mset (sort_key (\<lambda>r. - column r) df)"
    by (metis append_take_drop_id mset_append mset_subset_eq_add_left)
  then show ?thesis by (simp add: nlargest_def)
qed

lemma rest_nlargest:
  "mset df - mset (nlargest n column df) = mset (drop n (sort_key (\<lambda>r. - column r) df))"
proof -
  let ?ys = "sort_key (\<lambda>r. - column r) df"
  have "mset df = mset (take n ?ys) + mset (drop n ?ys)"
    by (metis append_take_drop_id mset_append mset_sort)
  then show ?thesis by (simp add: nlargest_def)
qed

lemma largest_nlargest:
  assumes "x \<in> set (nlargest n column df)" and "y \<in># mset df - mset (nlargest n column df)"
  shows "column y \<le> column x"
proof -
  let ?f = "\<lambda>r. - column r"
  let ?ys = "sort_key ?f df"
  have "sorted (map ?f (take n ?ys @ drop n ?ys))" by simp
  then have "\<forall>a\<in>set (map ?f (take n ?ys)). \<forall>b\<in>set (map ?f (drop n ?ys)). a \<le> b"
    by (simp only: map_append sorted_append) simp
  moreover from assms(1) have "?f x \<in> set (map ?f (take n ?ys))"
    by (simp add: nlargest_def)
  moreover from assms(2) have "?f y \<in> set (map ?f (drop n ?ys))"
    by (simp add: rest_nlargest)
  ultimately have "?f x \<le> ?f y" by blast
  then show ?thesis by simp
qed

lemma ties_nlargest:
  "prefix (filter (\<lambda>r. column r = k) (nlargest n column df)) (filter (\<lambda>r. column r = k) df)"
proof -
  let ?f = "\<lambda>r. - column r"
  have "filter (\<lambda>r. ?f r = - k) (sort_key ?f df) = filter (\<lambda>r. ?f r = - k) df"
    by (rule sort_key_stable)
  then have e: "filter (\<lambda>r. column r = k) (sort_key ?f df) = filter (\<lambda>r. column r = k) df"
    by simp
  have "prefix (filter (\<lambda>r. column r = k) (take n (sort_key ?f df)))
      (filter (\<lambda>r. column r = k) (sort_key ?f df))"
    by (rule filter_mono_prefix) (rule take_is_prefix)
  then show ?thesis by (simp only: e nlargest_def)
qed

lemma sort_uminus: "map uminus (sort (map uminus xs)) = rev (sort (xs :: int list))"
proof -
  have "sorted (map uminus (rev (sort xs)))"
    by (simp add: sorted_wrt_map sorted_wrt_rev)
  moreover have "mset (map uminus (rev (sort xs))) = mset (map uminus xs)" by simp
  ultimately have "sort (map uminus xs) = map uminus (rev (sort xs))"
    by (metis properties_for_sort)
  then show ?thesis by (simp add: comp_def)
qed

lemma values_nlargest:
  "map column (nlargest n column df) = take n (rev (sort (map column df)))"
proof -
  have "map (\<lambda>r. - column r) df = map uminus (map column df)" by (simp add: comp_def)
  then show ?thesis by (simp only: column_nlargest sort_uminus)
qed

text \<open>Everything the statement of C8 says about a selection, for \<open>nlargest\<close>.\<close>

lemma nlargest_selection:
  "length (nlargest n column df) = min n (length df)
   \<and> map column (nlargest n column df) = take n (rev (sort (map column df)))
   \<and> sorted_wrt (\<ge>) (map column (nlargest n column df))
   \<and> mset (nlargest n column df) \<subseteq># mset df
   \<and> (\<forall>x\<in>set (nlargest n column df). \<forall>y\<in>#(mset df - mset (nlargest n column df)).
         column y \<le> column x)
   \<and> (\<forall>k. prefix (filter (\<lambda>r. column r = k) (nlargest n column df))
              (filter (\<lambda>r. column r = k) df))"
proof -
  have c5: "\<forall>x\<in>set (nlargest n column df). \<forall>y\<in>#(mset df - mset (nlargest n column df)).
         column y \<le> column x"
    by (intro ballI) (rule largest_nlargest, assumption+)
  have c6: "\<forall>k. prefix (filter (\<lambda>r. column r = k) (nlargest n column df))
              (filter (\<lambda>r. column r = k) df)"
    by (simp add: ties_nlargest)
  show ?thesis
    by (rule conjI [OF length_nlargest conjI [OF values_nlargest conjI [OF descending_nlargest
          conjI [OF mset_nlargest conjI [OF c5 c6]]]]])
qed

subsection \<open>C8: the top five stations\<close>

lemma analytics_frame_nonempty: "snapshot \<noteq> [] \<Longrightarrow> analytics_frame snapshot = Inr snapshot"
  by (simp add: analytics_frame_def)

lemma top_bikes_nonempty:
  "snapshot \<noteq> [] \<Longrightarrow>
     top_bikes snapshot = Inr (map bikes_columns (nlargest 5 bikes_available snapshot))"
  by (simp add: top_bikes_def analytics_frame_def)

lemma top_docks_nonempty:
  "snapshot \<noteq> [] \<Longrightarrow>
     top_docks snapshot = Inr (map docks_columns (nlargest 5 docks_available snapshot))"
  by (simp add: top_docks_def analytics_frame_def)

lemma top5_of_seven:
  assumes "map column df = [0, 1, 2, 3, 4, 5, 6]"
  shows "map column (nlargest 5 column df) = [6, 5, 4, 3, 2]"
proof -
  have "sort (map column df) = sort [0, 1, 2, 3, 4, 5, 6 :: int]" by (simp only: assms)
  also have "\<dots> = [0, 1, 2, 3, 4, 5, 6]" by simp
  finally show ?thesis by (simp add: values_nlargest)
qed

lemma top_bikes_of_seven:
  assumes "map bikes_available snapshot = [0, 1, 2, 3, 4, 5, 6]"
  shows "map_sum id (map (\<lambda>(nm, b, c). b)) (top_bikes snapshot) = Inr [6, 5, 4, 3, 2]"
proof -
  from assms have "snapshot \<noteq> []" by auto
  then show ?thesis
    using top5_of_seven [OF assms]
    by (simp add: top_bikes_nonempty comp_def bikes_columns_def)
qed

lemma top_docks_of_seven:
  assumes "map docks_available snapshot = [0, 1, 2, 3, 4, 5, 6]"
  shows "map_sum id (map (\<lambda>(nm, d, c). d)) (top_docks snapshot) = Inr [6, 5, 4, 3, 2]"
proof -
  from assms have "snapshot \<noteq> []" by auto
  then show ?thesis
    using top5_of_seven [OF assms]
    by (simp add: top_docks_nonempty comp_def docks_columns_def)
qed

text \<open>
  C8 (amended). For every snapshot with at least one station, the top-five query by bikes
  returns the name, bikes_available and capacity of min(5, number of stations) stations of
  the snapshot: their bikes_available are the largest values of the snapshot in descending
  order, every station selected has at least the value of every station left out, and
  stations with equal values appear in input order, the earliest ones being selected. On
  seven stations with bikes 0 to 6 the query returns the values 6, 5, 4, 3, 2 in that
  order. The same holds for the query by docks over docks_available.
\<close>

theorem top_n_descending_stable:
  assumes "snapshot \<noteq> []"
  shows
   "(\<exists>sel. top_bikes snapshot = Inr (map bikes_columns sel)
       \<and> length sel = min 5 (length snapshot)
       \<and> map bikes_available sel = take 5 (rev (sort (map bikes_available snapshot)))
       \<and> sorted_wrt (\<ge>) (map bikes_available sel)
       \<and> mset sel \<subseteq># mset snapshot
       \<and> (\<forall>x\<in>set sel. \<forall>y\<in>#(mset snapshot - mset sel).
             bikes_available y \<le> bikes_available x)
       \<and> (\<forall>k. prefix (filter (\<lambda>r. bikes_available r = k) sel)
                  (filter (\<lambda>r. bikes_available r = k) snapshot)))
    \<and> (\<exists>sel. top_docks snapshot = Inr (map docks_columns sel)
       \<and> length sel = min 5 (length snapshot)
       \<and> map docks_available sel = take 5 (rev (sort (map docks_available snapshot)))
       \<and> sorted_wrt (\<ge>) (map docks_available sel)
       \<and> mset sel \<subseteq># mset snapshot
       \<and> (\<forall>x\<in>set sel. \<forall>y\<in>#(mset snapshot - mset sel).
             docks_available y \<le> docks_available x)
       \<and> (\<forall>k. prefix (filter (\<lambda>r. docks_available r = k) sel)
                  (filter (\<lambda>r. docks_available r = k) snapshot)))
    \<and> (map bikes_available snapshot = [0, 1, 2, 3, 4, 5, 6] \<longrightarrow>
         map_sum id (map (\<lambda>(nm, b, c). b)) (top_bikes snapshot) = Inr [6, 5, 4, 3, 2])
    \<and> (map docks_available snapshot = [0, 1, 2, 3, 4, 5, 6] \<longrightarrow>
         map_sum id (map (\<lambda>(nm, d, c). d)) (top_docks snapshot) = Inr [6, 5, 4, 3, 2])"
proof -
  have b: "\<exists>sel. top_bikes snapshot = Inr (map bikes_columns sel)
       \<and> length sel = min 5 (length snapshot)
       \<and> map bikes_available sel = take 5 (rev (sort (map bikes_available snapshot)))
       \<and> sorted_wrt (\<ge>) (map bikes_available sel)
       \<and> mset sel \<subseteq># mset snapshot
       \<and> (\<forall>x\<in>set sel. \<forall>y\<in>#(mset snapshot - mset sel).
             bikes_available y \<le> bikes_available x)
       \<and> (\<forall>k. prefix (filter (\<lambda>r. bikes_available r = k) sel)
                  (filter (\<lambda>r. bikes_available r = k) snapshot))"
    by (rule exI [of _ "nlargest 5 bikes_available snapshot"])
      (rule conjI [OF top_bikes_nonempty [OF assms] nlargest_selection])
  have d: "\<exists>sel. top_docks snapshot = Inr (map docks_columns sel)
       \<and> length sel = min 5 (length snapshot)
       \<and> map docks_available sel = take 5 (rev (sort (map docks_available snapshot)))
       \<and> sorted_wrt (\<ge>) (map docks_available sel)
       \<and> mset sel \<subseteq># mset snapshot
       \<and> (\<forall>x\<in>set sel. \<forall>y\<in>#(mset snapshot - mset sel).
             docks_available y \<le> docks_available x)
       \<and> (\<forall>k. prefix (filter (\<lambda>r. docks_available r = k) sel)
                  (filter (\<lambda>r. docks_available r = k) snapshot))"
    by (rule exI [of _ "nlargest 5 docks_available snapshot"])
      (rule conjI [OF top_docks_nonempty [OF assms] nlargest_selection])
  have c3: "map bikes_available snapshot = [0, 1, 2, 3, 4, 5, 6] \<longrightarrow>
         map_sum id (map (\<lambda>(nm, b, c). b)) (top_bikes snapshot) = Inr [6, 5, 4, 3, 2]"
    by (rule impI) (rule top_bikes_of_seven)
  have c4: "map docks_available snapshot = [0, 1, 2, 3, 4, 5, 6] \<longrightarrow>
         map_sum id (map (\<lambda>(nm, d, c). d)) (top_docks snapshot) = Inr [6, 5, 4, 3, 2]"
    by (rule impI) (rule top_docks_of_seven)
  show ?thesis by (rule conjI [OF b conjI [OF d conjI [OF c3 c4]]])
qed

theorem top_n_descending_stable_witness:
  "map_sum id (map (\<lambda>(nm, b, c). b))
     (top_bikes (map (\<lambda>b. sample_record ''A'' b 10) [0, 1, 2, 3, 4, 5, 6]))
       = Inr [6, 5, 4, 3, 2]
   \<and> map_sum id (map (\<lambda>(nm, d, c). d))
     (top_docks (map (\<lambda>d. sample_record ''A'' (10 - d) 10) [0, 1, 2, 3, 4, 5, 6]))
       = Inr [6, 5, 4, 3, 2]
   \<and> map_sum id (map (\<lambda>(nm, b, c). b))
     (top_bikes [sample_record ''A'' 3 10, sample_record ''B'' 5 10, sample_record ''C'' 4 10])
       = Inr [5, 4, 3]
   \<and> top_bikes [sample_record ''A'' 3 10, sample_record ''B'' 5 10, sample_record ''C'' 5 10,
         sample_record ''D'' 5 10, sample_record ''E'' 5 10, sample_record ''F'' 5 10,
         sample_record ''G'' 5 10]
       = Inr (map bikes_columns
           [sample_record ''B'' 5 10, sample_record ''C'' 5 10, sample_record ''D'' 5 10,
            sample_record ''E'' 5 10, sample_record ''F'' 5 10])"
proof -
  let ?s = "map (\<lambda>b. sample_record ''A'' b 10) [0, 1, 2, 3, 4, 5, 6]"
  let ?s' = "map (\<lambda>d. sample_record ''A'' (10 - d) 10) [0, 1, 2, 3, 4, 5, 6]"
  let ?three = "[sample_record ''A'' 3 10, sample_record ''B'' 5 10, sample_record ''C'' 4 10]"
  let ?ties = "[sample_record ''A'' 3 10, sample_record ''B'' 5 10, sample_record ''C'' 5 10,
         sample_record ''D'' 5 10, sample_record ''E'' 5 10, sample_record ''F'' 5 10,
         sample_record ''G'' 5 10]"
  have n1: "?s \<noteq> []" by simp
  have n2: "?s' \<noteq> []" by simp
  have n3: "?three \<noteq> []" by simp
  have h1: "map bikes_available ?s = [0, 1, 2, 3, 4, 5, 6]"
    by (simp add: sample_record_def)
  have h2: "map docks_available ?s' = [0, 1, 2, 3, 4, 5, 6]"
    by (simp add: sample_record_def)
  note t1 = top_n_descending_stable [OF n1]
  note t2 = top_n_descending_stable [OF n2]
  note t3 = top_n_descending_stable [OF n3]
  note a = mp [OF conjunct1 [OF conjunct2 [OF conjunct2 [OF t1]]] h1]
  note b = mp [OF conjunct2 [OF conjunct2 [OF conjunct2 [OF t2]]] h2]
  from conjunct1 [OF t3] obtain sel where sel: "top_bikes ?three = Inr (map bikes_columns sel)"
    "map bikes_available sel = take 5 (rev (sort (map bikes_available ?three)))"
    by blast
  have "map (\<lambda>(nm, b, c). b) (map bikes_columns sel) = map bikes_available sel"
    by (simp add: comp_def bikes_columns_def)
  with sel have c: "map_sum id (map (\<lambda>(nm, b, c). b)) (top_bikes ?three) = Inr [5, 4, 3]"
    by (simp add: sample_record_def)
  have d: "top_bikes ?ties
       = Inr (map bikes_columns
           [sample_record ''B'' 5 10, sample_record ''C'' 5 10, sample_record ''D'' 5 10,
            sample_record ''E'' 5 10, sample_record ''F'' 5 10])"
    by (simp add: top_bikes_def analytics_frame_def nlargest_def sample_record_def)
  show ?thesis by (rule conjI [OF a conjI [OF b conjI [OF c d]]])
qed

text \<open>
  C8 as stated fails on the empty snapshot, which the session holds after a first run that
  raised in the generator: the Analytics page raises \<open>ValueError\<close> at lines 282 to 284 and
  reaches neither query.
\<close>

theorem top_five_of_empty_snapshot_counterexample:
  "page_frame (fst (run_session_code fresh_app unmatched_run)) = []
   \<and> top_bikes (page_frame (fst (run_session_code fresh_app unmatched_run))) = Inl ValueError
   \<and> top_docks (page_frame (fst (run_session_code fresh_app unmatched_run))) = Inl ValueError"
  by (simp add: pipeline_defs unmatched_run_def page_frame_def top_bikes_def top_docks_def
      analytics_frame_def)

subsection \<open>C6: utilization\<close>

lemma round_half_even_nearest: "\<bar>of_int (round_half_even x) - x\<bar> \<le> 1 / 2"
proof -
  have "of_int \<lfloor>x\<rfloor> \<le> x" "x < of_int \<lfloor>x\<rfloor> + 1" by linarith+
  then show ?thesis
    by (auto simp: round_half_even_def Let_def abs_le_iff)
qed

lemma pow2_pos: "0 < pow2 e"
  by (simp add: pow2_def)

text \<open>The rounding error is at most half the spacing of the floats around \<open>x\<close>.\<close>

lemma to_double_nearest:
  "x \<noteq> 0 \<Longrightarrow>
     \<bar>to_double x - x\<bar> \<le> pow2 (max (binade \<bar>x\<bar> - 52) (- 1074)) / 2"
proof -
  assume "x \<noteq> 0"
  let ?u = "pow2 (max (binade \<bar>x\<bar> - 52) (- 1074))"
  have u: "0 < ?u" by (rule pow2_pos)
  have "to_double x - x = (of_int (round_half_even (x / ?u)) - x / ?u) * ?u"
    using u \<open>x \<noteq> 0\<close> by (simp add: to_double_def Let_def field_simps)
  then have "\<bar>to_double x - x\<bar> = \<bar>of_int (round_half_even (x / ?u)) - x / ?u\<bar> * ?u"
    using u by (simp add: abs_mult)
  also have "\<dots> \<le> 1 / 2 * ?u"
    using round_half_even_nearest [of "x / ?u"] u by (intro mult_right_mono) simp_all
  finally show ?thesis by simp
qed

lemma utilization_zero_capacity: "calculate_utilization bikes 0 = Inr (Finite 0)"
  by (simp add: calculate_utilization_def)

lemma py_truediv_nonzero: "b \<noteq> 0 \<Longrightarrow> py_truediv a b \<noteq> Inl ZeroDivisionError"
  by (simp add: py_truediv_def Let_def)

lemma py_round_no_zero_division: "py_round x n \<noteq> Inl ZeroDivisionError"
  by (cases x) (simp_all add: py_round_def Let_def)

lemma utilization_no_zero_division:
  "calculate_utilization bikes cap \<noteq> Inl ZeroDivisionError"
proof (cases "cap = 0")
  case True
  then show ?thesis by (simp add: calculate_utilization_def)
next
  case False
  then show ?thesis
    using py_truediv_nonzero [OF False, of bikes] py_round_no_zero_division
    by (cases "py_truediv bikes cap") (auto simp: calculate_utilization_def)
qed

lemma not_overflows_small: "\<bar>x\<bar> \<le> 1000 \<Longrightarrow> \<not> overflows x"
proof -
  assume a: "\<bar>x\<bar> \<le> 1000"
  have "(1000::rat) < 2 ^ 10" by simp
  also have "(2::rat) ^ 10 \<le> 2 ^ 1024" by (rule power_increasing) simp_all
  finally show ?thesis using a by (simp add: overflows_def)
qed

lemma py_truediv_step:
  assumes "b \<noteq> 0" and "to_double (of_int a / of_int b) = q" and "\<bar>q\<bar> \<le> 1000"
  shows "py_truediv a b = Inr q"
  using assms not_overflows_small [of q] by (simp add: py_truediv_def Let_def)

text \<open>The three float operations of \<open>calculate_utilization\<close>, one after the other.\<close>

lemma utilization_steps:
  assumes "cap \<noteq> 0"
    and q: "to_double (of_int bikes / of_int cap) = q" "\<bar>q\<bar> \<le> 1000"
    and p: "to_double (q * 100) = p" "\<bar>p\<bar> \<le> 1000"
    and r: "to_double (of_int (round_half_even (p * 10 ^ 2)) / 10 ^ 2) = r" "\<bar>r\<bar> \<le> 1000"
  shows "calculate_utilization bikes cap = Inr (Finite r)"
proof -
  have "py_truediv bikes cap = Inr q"
    using assms(1) q not_overflows_small [of q] by (simp add: py_truediv_def Let_def)
  moreover have "float_mul q 100 = Finite p"
    using p not_overflows_small [of p] by (simp add: float_mul_def Let_def)
  moreover have "py_round (Finite p) 2 = Inr (Finite r)"
    using r not_overflows_small [of r] by (simp add: py_round_def Let_def)
  ultimately show ?thesis using assms(1) by (simp add: calculate_utilization_def)
qed

lemma utilization_3_10: "calculate_utilization 3 10 = Inr (Finite 30)"
proof (rule utilization_steps)
  show "to_double (of_int 3 / of_int 10) = 5404319552844595 / 18014398509481984"
    by code_simp
  show "to_double (5404319552844595 / 18014398509481984 * 100) = 30"
    by code_simp
  show "to_double (of_int (round_half_even (30 * 10 ^ 2)) / 10 ^ 2) = 30"
    by code_simp
qed simp_all

lemma utilization_10_10: "calculate_utilization 10 10 = Inr (Finite 100)"
proof (rule utilization_steps)
  show "to_double (of_int 10 / of_int 10) = 1"
    by code_simp
  show "to_double (1 * 100) = 100"
    by code_simp
  show "to_double (of_int (round_half_even (100 * 10 ^ 2)) / 10 ^ 2) = 100"
    by code_simp
qed simp_all

text \<open>A tie of the decimal rounding: 1/800 of 100 is 0.125, which rounds to the even 0.12.\<close>

lemma utilization_1_800:
  "calculate_utilization 1 800 = Inr (Finite (1080863910568919 / 9007199254740992))"
proof (rule utilization_steps)
  show "to_double (of_int 1 / of_int 800) = 5764607523034235 / 4611686018427387904"
    by code_simp
  show "to_double (5764607523034235 / 4611686018427387904 * 100) = 1 / 8"
    by code_simp
  show "to_double (of_int (round_half_even (1 / 8 * 10 ^ 2)) / 10 ^ 2)
      = 1080863910568919 / 9007199254740992"
    by code_simp
qed simp_all

text \<open>
  C6. For non-negative integers bikes and capacity, \<open>calculate_utilization\<close> returns 0 when
  the capacity is 0, without dividing; for a positive capacity it is
  \<open>round(bikes / capacity * 100, 2)\<close> in float arithmetic and never raises
  \<open>ZeroDivisionError\<close>. In particular utilization(0, 0) = 0, utilization(3, 10) = 30.0 and
  utilization(10, 10) = 100.0.
\<close>

theorem utilization_rounded_percentage:
  assumes "0 \<le> bikes" and "0 \<le> cap"
  shows "(cap = 0 \<longrightarrow> calculate_utilization bikes cap = Inr (Finite 0))
     \<and> (0 < cap \<longrightarrow>
          calculate_utilization bikes cap
            = (case py_truediv bikes cap of
                 Inl e \<Rightarrow> Inl e
               | Inr q \<Rightarrow> py_round (float_mul q 100) 2)
          \<and> py_truediv bikes cap \<noteq> Inl ZeroDivisionError)
     \<and> calculate_utilization bikes cap \<noteq> Inl ZeroDivisionError
     \<and> calculate_utilization 0 0 = Inr (Finite 0)
     \<and> calculate_utilization 3 10 = Inr (Finite 30)
     \<and> calculate_utilization 10 10 = Inr (Finite 100)"
proof -
  have c1: "cap = 0 \<longrightarrow> calculate_utilization bikes cap = Inr (Finite 0)"
    by (simp add: utilization_zero_capacity)
  have c2: "0 < cap \<longrightarrow>
          calculate_utilization bikes cap
            = (case py_truediv bikes cap of
                 Inl e \<Rightarrow> Inl e
               | Inr q \<Rightarrow> py_round (float_mul q 100) 2)
          \<and> py_truediv bikes cap \<noteq> Inl ZeroDivisionError"
    by (simp add: calculate_utilization_def py_truediv_nonzero)
  from c1 c2 utilization_no_zero_division [of bikes cap] utilization_zero_capacity [of 0]
    utilization_3_10 utilization_10_10
  show ?thesis by (intro conjI)
qed

theorem utilization_rounded_percentage_witness:
  "calculate_utilization 7 0 = Inr (Finite 0)
   \<and> calculate_utilization 1 800 \<noteq> Inl ZeroDivisionError
   \<and> py_truediv 1 800 = Inr (5764607523034235 / 4611686018427387904)
   \<and> py_round (float_mul (5764607523034235 / 4611686018427387904) 100) 2
       = Inr (Finite (1080863910568919 / 9007199254740992))
   \<and> calculate_utilization 3 10 = Inr (Finite 30)"
proof -
  note t = utilization_rounded_percentage [of 7 0, simplified]
  note u = utilization_rounded_percentage [of 1 800, simplified]
  have d: "py_truediv 1 800 = Inr (5764607523034235 / 4611686018427387904)"
  proof (rule py_truediv_step)
    show "to_double (of_int 1 / of_int 800) = 5764607523034235 / 4611686018427387904"
      by code_simp
  qed simp_all
  from u have "calculate_utilization 1 800
            = (case py_truediv 1 800 of
                 Inl e \<Rightarrow> Inl e
               | Inr q \<Rightarrow> py_round (float_mul q 100) 2)"
    by blast
  with d utilization_1_800
  have r: "py_round (float_mul (5764607523034235 / 4611686018427387904) 100) 2
       = Inr (Finite (1080863910568919 / 9007199254740992))"
    by simp
  from t u d r show ?thesis by simp
qed

end
